theory Spec2Isabelle
  imports Complex_Main
begin

section \<open>Strings and JavaScript values\<close>

text \<open>
  Strings are lists of 8-bit code units. \<open>toLowerCase\<close> is JavaScript's
  \<^verbatim>\<open>String.prototype.toLowerCase\<close> on the letters A to Z; the frequency keywords and the
  hexadecimal wallet addresses it is applied to are ASCII.
\<close>

definition toLowerChar :: "char \<Rightarrow> char" where
  "toLowerChar c =
     (let n = (of_char c :: nat) in if 65 \<le> n \<and> n \<le> 90 then char_of (n + 32) else c)"

definition toLowerCase :: "string \<Rightarrow> string" where
  "toLowerCase s = map toLowerChar s"

text \<open>\<^verbatim>\<open>haystack.includes(needle)\<close>: the needle occurs as a contiguous substring.\<close>

fun isPrefixOf :: "string \<Rightarrow> string \<Rightarrow> bool" where
  "isPrefixOf [] ys = True"
| "isPrefixOf (x # xs) [] = False"
| "isPrefixOf (x # xs) (y # ys) = (x = y \<and> isPrefixOf xs ys)"

fun includesStr :: "string \<Rightarrow> string \<Rightarrow> bool" where
  "includesStr [] needle = (needle = [])"
| "includesStr (c # cs) needle = (isPrefixOf needle (c # cs) \<or> includesStr cs needle)"

text \<open>The decimal digits of a natural number, as \<^verbatim>\<open>String(n)\<close> writes them.\<close>

fun showNat :: "nat \<Rightarrow> string" where
  "showNat n =
     (if n < 10 then [''0123456789'' ! n]
      else showNat (n div 10) @ [''0123456789'' ! (n mod 10)])"

declare showNat.simps [simp del]

section \<open>Date arithmetic of the JavaScript \<^verbatim>\<open>Date\<close> object\<close>

text \<open>
  A \<^verbatim>\<open>Date\<close> holds a time value: milliseconds since 1970-01-01T00:00:00Z. The ISO strings
  the program stores (\<^verbatim>\<open>toISOString\<close>) and parses back (\<^verbatim>\<open>new Date(s)\<close>) carry exactly
  this value, so a timestamp is modelled by its time value. The functions below are the
  abstract operations of the ECMAScript specification (Day, TimeWithinDay, DaysInYear,
  DayFromYear, YearFromTime, MonthFromTime, DateFromTime, MakeDay, MakeDate) that
  \<^verbatim>\<open>getDate\<close>, \<^verbatim>\<open>setDate\<close>, \<^verbatim>\<open>setMonth\<close> and \<^verbatim>\<open>setFullYear\<close> are defined by. Time values
  are unbounded integers: the limit of 8.64e15 ms that \<^verbatim>\<open>TimeClip\<close> enforces lies beyond
  any clock reading.

  The getters and setters work in the local time of the host. The host's time zone is a
  parameter: its offset from UTC in milliseconds (LocalTZA) as a function of a UTC time
  value, which \<open>LocalTime\<close> adds, and as a function of a local time value, which \<open>UTC\<close>
  subtracts. The two differ across a daylight-saving change, so that a setter need not
  move the time value by whole days. \<open>fixedZone c\<close> is a zone without such changes.
\<close>

definition msPerDay :: int where
  "msPerDay = 86400000"

definition day :: "int \<Rightarrow> int" where
  "day t = t div msPerDay"

definition timeWithinDay :: "int \<Rightarrow> int" where
  "timeWithinDay t = t mod msPerDay"

definition daysInYear :: "int \<Rightarrow> int" where
  "daysInYear y =
     (if y mod 4 \<noteq> 0 then 365
      else if y mod 100 \<noteq> 0 then 366
      else if y mod 400 \<noteq> 0 then 365
      else 366)"

definition dayFromYear :: "int \<Rightarrow> int" where
  "dayFromYear y =
     365 * (y - 1970) + (y - 1969) div 4 - (y - 1901) div 100 + (y - 1601) div 400"

text \<open>
  YearFromTime is the largest year whose first day is not after the day of \<open>t\<close>. It is
  computed from the mean year length of 146097/400 days, which is off by at most one year,
  and then adjusted.
\<close>

definition yearFromTime :: "int \<Rightarrow> int" where
  "yearFromTime t =
     (let d = day t; y = 1970 + (400 * d) div 146097
      in if d < dayFromYear y then y - 1
         else if dayFromYear (y + 1) \<le> d then y + 1
         else y)"

definition inLeapYear :: "int \<Rightarrow> int" where
  "inLeapYear t = (if daysInYear (yearFromTime t) = 366 then 1 else 0)"

definition dayWithinYear :: "int \<Rightarrow> int" where
  "dayWithinYear t = day t - dayFromYear (yearFromTime t)"

definition monthFromTime :: "int \<Rightarrow> int" where
  "monthFromTime t =
     (let d = dayWithinYear t; l = inLeapYear t
      in if d < 31 then 0
         else if d < 59 + l then 1
         else if d < 90 + l then 2
         else if d < 120 + l then 3
         else if d < 151 + l then 4
         else if d < 181 + l then 5
         else if d < 212 + l then 6
         else if d < 243 + l then 7
         else if d < 273 + l then 8
         else if d < 304 + l then 9
         else if d < 334 + l then 10
         else 11)"

definition dateFromTime :: "int \<Rightarrow> int" where
  "dateFromTime t =
     (let d = dayWithinYear t; l = inLeapYear t; m = monthFromTime t
      in if m = 0 then d + 1
         else if m = 1 then d - 30
         else if m = 2 then d - 58 - l
         else if m = 3 then d - 89 - l
         else if m = 4 then d - 119 - l
         else if m = 5 then d - 150 - l
         else if m = 6 then d - 180 - l
         else if m = 7 then d - 211 - l
         else if m = 8 then d - 242 - l
         else if m = 9 then d - 272 - l
         else if m = 10 then d - 303 - l
         else d - 333 - l)"

text \<open>Days from the first of January to the first of month \<open>mn\<close> (0 to 11).\<close>

definition daysBeforeMonth :: "int \<Rightarrow> int \<Rightarrow> int" where
  "daysBeforeMonth mn l =
     (if mn = 0 then 0
      else if mn = 1 then 31
      else if mn = 2 then 59 + l
      else if mn = 3 then 90 + l
      else if mn = 4 then 120 + l
      else if mn = 5 then 151 + l
      else if mn = 6 then 181 + l
      else if mn = 7 then 212 + l
      else if mn = 8 then 243 + l
      else if mn = 9 then 273 + l
      else if mn = 10 then 304 + l
      else 334 + l)"

text \<open>
  MakeDay: months beyond 0..11 carry into the year, and the day number is the first day
  of that month plus \<open>date - 1\<close>, whatever \<open>date\<close> is: a date beyond the end of the month
  runs on into the following month.
\<close>

definition makeDay :: "int \<Rightarrow> int \<Rightarrow> int \<Rightarrow> int" where
  "makeDay year month date =
     (let ym = year + month div 12; mn = month mod 12
      in dayFromYear ym + daysBeforeMonth mn (if daysInYear ym = 366 then 1 else 0) + date - 1)"

definition makeDate :: "int \<Rightarrow> int \<Rightarrow> int" where
  "makeDate d time = d * msPerDay + time"

record zone =
  offsetAtUTC :: "int \<Rightarrow> int"
  offsetAtLocal :: "int \<Rightarrow> int"

definition fixedZone :: "int \<Rightarrow> zone" where
  "fixedZone c = \<lparr>offsetAtUTC = (\<lambda>t. c), offsetAtLocal = (\<lambda>t. c)\<rparr>"

definition localTime :: "zone \<Rightarrow> int \<Rightarrow> int" where
  "localTime tz t = t + offsetAtUTC tz t"

definition utc :: "zone \<Rightarrow> int \<Rightarrow> int" where
  "utc tz t = t - offsetAtLocal tz t"

definition getDate :: "zone \<Rightarrow> int \<Rightarrow> int" where
  "getDate tz t = dateFromTime (localTime tz t)"

definition getMonth :: "zone \<Rightarrow> int \<Rightarrow> int" where
  "getMonth tz t = monthFromTime (localTime tz t)"

definition getFullYear :: "zone \<Rightarrow> int \<Rightarrow> int" where
  "getFullYear tz t = yearFromTime (localTime tz t)"

definition setDate :: "zone \<Rightarrow> int \<Rightarrow> int \<Rightarrow> int" where
  "setDate tz t dt =
     (let lt = localTime tz t
      in utc tz (makeDate (makeDay (yearFromTime lt) (monthFromTime lt) dt) (timeWithinDay lt)))"

definition setMonth :: "zone \<Rightarrow> int \<Rightarrow> int \<Rightarrow> int" where
  "setMonth tz t m =
     (let lt = localTime tz t
      in utc tz (makeDate (makeDay (yearFromTime lt) m (dateFromTime lt)) (timeWithinDay lt)))"

definition setFullYear :: "zone \<Rightarrow> int \<Rightarrow> int \<Rightarrow> int" where
  "setFullYear tz t y =
     (let lt = localTime tz t
      in utc tz (makeDate (makeDay y (monthFromTime lt) (dateFromTime lt)) (timeWithinDay lt)))"

section \<open>Schedule agent: recurrence arithmetic\<close>

text \<open>
  \<^verbatim>\<open>calculateNextExecutionDate(frequency, fromDate = null)\<close>. The base is \<open>fromDate\<close> when it
  is given and the clock reading \<open>clock\<close> otherwise; \<open>nextDate\<close> starts as a copy of the
  base and one setter is applied to it.
\<close>

definition calculateNextExecutionDate :: "zone \<Rightarrow> int \<Rightarrow> string \<Rightarrow> int option \<Rightarrow> int" where
  "calculateNextExecutionDate tz clock frequency fromDate =
     (let baseDate = (case fromDate of Some d \<Rightarrow> d | None \<Rightarrow> clock);
          nextDate = baseDate;
          f = toLowerCase frequency
      in if f = ''daily'' then setDate tz nextDate (getDate tz baseDate + 1)
         else if f = ''weekly'' then setDate tz nextDate (getDate tz baseDate + 7)
         else if f = ''monthly'' then setMonth tz nextDate (getMonth tz baseDate + 1)
         else if f = ''yearly'' then setFullYear tz nextDate (getFullYear tz baseDate + 1)
         else setDate tz nextDate (getDate tz baseDate + 1))"

text \<open>Number of days of month \<open>mn\<close> (0 to 11) of year \<open>y\<close>.\<close>

definition daysInMonth :: "int \<Rightarrow> int \<Rightarrow> int" where
  "daysInMonth y mn =
     (if mn = 1 then (if daysInYear y = 366 then 29 else 28)
      else if mn = 3 \<or> mn = 5 \<or> mn = 8 \<or> mn = 10 then 30
      else 31)"

text \<open>
  The specification's reading of the monthly step, written from its words: "one calendar
  month (clamped to valid day-of-month)". The result keeps the local time of day, lies in
  the month after the base's, and has the base's day-of-month, or the last day of that
  month when the month is shorter. It is given as a local time value and as the time value
  it stands for.
\<close>

definition specAddMonthClampedLocal :: "zone \<Rightarrow> int \<Rightarrow> int" where
  "specAddMonthClampedLocal tz t =
     (let lt = localTime tz t;
          y = yearFromTime lt + (monthFromTime lt + 1) div 12;
          mn = (monthFromTime lt + 1) mod 12;
          d = min (dateFromTime lt) (daysInMonth y mn)
      in makeDate (makeDay y mn d) (timeWithinDay lt))"

definition specAddMonthClamped :: "zone \<Rightarrow> int \<Rightarrow> int" where
  "specAddMonthClamped tz t = utc tz (specAddMonthClampedLocal tz t)"

section \<open>Schedule agent: the stored entry and the update after an execution\<close>

text \<open>
  A row of table \<^verbatim>\<open>scheduled_payments\<close>. Nullable columns are options. The date columns
  hold the time value of the stored ISO string; \<open>end_date\<close> is supplied by the caller of
  the planner, so it holds what \<^verbatim>\<open>new Date(end_date)\<close> yields, which may be an invalid
  date. Columns \<^verbatim>\<open>created_at\<close>, \<^verbatim>\<open>updated_at\<close> and \<^verbatim>\<open>private_key_required\<close> take no part in
  any decision and are left out.
\<close>

datatype jsdate = InvalidDate | TimeValue int

record payment =
  user_id :: nat
  payment_type :: string
  to_address :: string
  amount :: string
  frequency :: "string option"
  condition :: "string option"
  start_date :: "int option"
  end_date :: "jsdate option"
  next_execution_date :: "int option"
  last_execution_date :: "int option"
  execution_count :: "int option"
  max_executions :: "int option"
  status :: string

type_synonym store = "nat \<Rightarrow> payment option"

text \<open>
  \<^verbatim>\<open>updateAfterExecution(paymentId, executed, errorMessage, transactionId)\<close>. The clock is
  read once for \<open>now\<close> and once more, as \<^verbatim>\<open>Date.now()\<close>, in the branches that schedule a
  retry; the second reading is \<open>dateNow\<close>. The transaction id is only logged. The result
  is the returned boolean and the table after the \<^verbatim>\<open>UPDATE\<close>. JavaScript truthiness is
  written out: a null or zero \<open>max_executions\<close>, a null or empty \<open>frequency\<close>, a null or
  empty \<open>errorMessage\<close> and a null \<open>end_date\<close> are falsy.
\<close>

definition updateAfterExecution ::
  "zone \<Rightarrow> int \<Rightarrow> int \<Rightarrow> store \<Rightarrow> nat \<Rightarrow> bool \<Rightarrow> string option \<Rightarrow> bool \<times> store" where
  "updateAfterExecution tz now dateNow db paymentId executed errorMessage =
     (case db paymentId of
        None \<Rightarrow> (False, db)
      | Some p \<Rightarrow>
          let executionCount =
                (case execution_count p of None \<Rightarrow> 0 | Some c \<Rightarrow> c) + (if executed then 1 else 0);
              maxReached =
                (case max_executions p of
                   None \<Rightarrow> False
                 | Some m \<Rightarrow> m \<noteq> 0 \<and> executionCount \<ge> m);
              recurring =
                (if payment_type p = ''RECURRING''
                 then (case frequency p of
                         None \<Rightarrow> None
                       | Some f \<Rightarrow> if f = [] then None else Some f)
                 else None);
              (nextExecutionDate, status1) =
                (if maxReached then (None, ''completed'')
                 else case recurring of
                   Some f \<Rightarrow>
                     if executed
                     then (Some (calculateNextExecutionDate tz dateNow f (Some now)), ''active'')
                     else (Some (dateNow + 5 * 60000), ''active'')
                 | None \<Rightarrow>
                     if payment_type p = ''CONDITIONAL''
                     then (if executed then (None, ''completed'')
                           else let retryDelay =
                                      (case errorMessage of
                                         None \<Rightarrow> 60000
                                       | Some e \<Rightarrow>
                                           if e \<noteq> [] \<and> includesStr e ''Insufficient balance''
                                           then 5 * 60000 else 60000)
                                in (Some (dateNow + retryDelay), ''active''))
                     else (if executed then (None, ''completed'') else (None, ''failed'')));
              endReached =
                (case end_date p of
                   Some (TimeValue e) \<Rightarrow> now > e
                 | _ \<Rightarrow> False);
              (nextExecutionDate2, status2) =
                (if endReached then (None, ''completed'') else (nextExecutionDate, status1))
          in (True,
              db(paymentId \<mapsto> p\<lparr>
                   last_execution_date := (if executed then Some now else None),
                   next_execution_date := nextExecutionDate2,
                   execution_count := Some executionCount,
                   status := status2\<rparr>)))"

text \<open>
  The two overriding rules as predicates of the stored entry, for stating when neither
  applies: the cap counts this call's increment, and the end date is compared with
  \<open>now\<close>.
\<close>

definition capApplies :: "payment \<Rightarrow> bool \<Rightarrow> bool" where
  "capApplies p executed =
     (case max_executions p of
        None \<Rightarrow> False
      | Some m \<Rightarrow>
          m \<noteq> 0 \<and>
          (case execution_count p of None \<Rightarrow> 0 | Some c \<Rightarrow> c) + (if executed then 1 else 0) \<ge> m)"

definition endDatePassed :: "payment \<Rightarrow> int \<Rightarrow> bool" where
  "endDatePassed p now = (case end_date p of Some (TimeValue e) \<Rightarrow> now > e | _ \<Rightarrow> False)"

text \<open>
  The \<^verbatim>\<open>WHERE\<close> clause of \<^verbatim>\<open>getReadyPayments\<close>: the entry is active and its next execution
  date is not after \<open>now\<close>; a null date compares as not ready.
\<close>

definition isReady :: "payment \<Rightarrow> int \<Rightarrow> bool" where
  "isReady p now =
     (status p = ''active'' \<and>
      (case next_execution_date p of None \<Rightarrow> False | Some n \<Rightarrow> n \<le> now))"

section \<open>Collaborators\<close>

text \<open>
  A call to a collaborator (the user database, the RPC provider, the wallet library)
  either returns a value or throws; \<open>Throws\<close> carries the \<^verbatim>\<open>message\<close> of the error. Only
  the wallet address of a user row matters here.

  JavaScript numbers are the rationals that doubles denote; \<open>fl\<close> stands for the rounding
  of an exact value to the nearest double, which \<^verbatim>\<open>parseFloat\<close> and every arithmetic
  operation apply. It is a parameter: nothing below depends on how it rounds.
\<close>

datatype 'a attempt = Throws string | Returns 'a

record user =
  wallet_address :: "string option"

section \<open>Scheduler: the condition evaluator\<close>

text \<open>
  The regular expression \<^verbatim>\<open>/balance\s*(>=|>|<=|<)\s*(\d+\.?\d*)/i\<close> of
  \<^verbatim>\<open>evaluateCondition\<close>, matched as \<^verbatim>\<open>String.prototype.match\<close> does: at the leftmost
  position where the whole pattern matches, alternatives tried in the order written, and
  greedy repetition. (Giving back white space or digits can never make a failed match
  succeed here, since no operator starts with white space, and what follows the digits
  may match the empty string.) The result is the pair of the two capture groups.
\<close>

definition isWhiteSpace :: "char \<Rightarrow> bool" where
  "isWhiteSpace c = (c \<in> set [CHR 0x09, CHR 0x0A, CHR 0x0B, CHR 0x0C, CHR 0x0D, CHR 0x20, CHR 0xA0])"

definition isDigit :: "char \<Rightarrow> bool" where
  "isDigit c = (c \<in> set ''0123456789'')"

definition operators :: "string list" where
  "operators = [''>='', ''>'', ''<='', ''<'']"

text \<open>\<^verbatim>\<open>\s*(\d+\.?\d*)\<close> at the start of \<open>s\<close>: the captured threshold.\<close>

definition matchThreshold :: "string \<Rightarrow> string option" where
  "matchThreshold s =
     (let r = dropWhile isWhiteSpace s;
          ds = takeWhile isDigit r;
          r2 = dropWhile isDigit r
      in if ds = [] then None
         else Some (case r2 of
                      [] \<Rightarrow> ds
                    | c # r3 \<Rightarrow> if c = CHR ''.'' then ds @ ''.'' @ takeWhile isDigit r3 else ds))"

text \<open>\<^verbatim>\<open>(>=|>|<=|<)\s*(\d+\.?\d*)\<close> at the start of \<open>s\<close>, for the alternatives \<open>ops\<close>.\<close>

fun matchOperator :: "string list \<Rightarrow> string \<Rightarrow> (string \<times> string) option" where
  "matchOperator [] s = None"
| "matchOperator (op # ops) s =
     (if isPrefixOf op s
      then (case matchThreshold (drop (length op) s) of
              Some thr \<Rightarrow> Some (op, thr)
            | None \<Rightarrow> matchOperator ops s)
      else matchOperator ops s)"

text \<open>The whole pattern at the start of \<open>s\<close>; the flag \<^verbatim>\<open>i\<close> ignores the letter case.\<close>

definition matchAt :: "string \<Rightarrow> (string \<times> string) option" where
  "matchAt s =
     (if toLowerCase (take 7 s) = ''balance''
      then matchOperator operators (dropWhile isWhiteSpace (drop 7 s))
      else None)"

fun balanceMatch :: "string \<Rightarrow> (string \<times> string) option" where
  "balanceMatch [] = None"
| "balanceMatch (c # cs) =
     (case matchAt (c # cs) of
        Some m \<Rightarrow> Some m
      | None \<Rightarrow> balanceMatch cs)"

text \<open>The exact value of a decimal numeral \<^verbatim>\<open>digits[.digits]\<close>.\<close>

definition digitValue :: "char \<Rightarrow> nat" where
  "digitValue c = of_char c - 48"

definition digitsValue :: "string \<Rightarrow> nat" where
  "digitsValue ds = foldl (\<lambda>a c. 10 * a + digitValue c) 0 ds"

definition decimalValue :: "string \<Rightarrow> rat" where
  "decimalValue s =
     (let ip = takeWhile isDigit s;
          fp = (case dropWhile isDigit s of [] \<Rightarrow> [] | c # r \<Rightarrow> takeWhile isDigit r)
      in of_nat (digitsValue ip) + of_nat (digitsValue fp) / 10 ^ length fp)"

text \<open>The \<^verbatim>\<open>switch (operator)\<close> of \<^verbatim>\<open>evaluateCondition\<close>; \<open>result\<close> starts as false.\<close>

definition applyOperator :: "string \<Rightarrow> rat \<Rightarrow> rat \<Rightarrow> bool" where
  "applyOperator operator balanceFormatted threshold =
     (if operator = ''>='' then balanceFormatted \<ge> threshold
      else if operator = ''>'' then balanceFormatted > threshold
      else if operator = ''<='' then balanceFormatted \<le> threshold
      else if operator = ''<'' then balanceFormatted < threshold
      else False)"

text \<open>
  \<^verbatim>\<open>evaluateCondition(condition, userId)\<close>. The whole body is inside \<^verbatim>\<open>try\<close>, and the
  \<^verbatim>\<open>catch\<close> returns false. \<open>getUserById\<close> is the user database, \<open>getBalance\<close> the RPC
  provider's balance of an address in wei, formatted with 18 decimals and parsed as a
  number.
\<close>

definition evaluateCondition ::
  "(rat \<Rightarrow> rat) \<Rightarrow> (nat \<Rightarrow> user option attempt) \<Rightarrow> (string \<Rightarrow> int attempt)
     \<Rightarrow> string option \<Rightarrow> nat \<Rightarrow> bool" where
  "evaluateCondition fl getUserById getBalance cond userId =
     (case cond of
        None \<Rightarrow> False
      | Some c \<Rightarrow>
          if c = [] then False
          else case getUserById userId of
            Throws _ \<Rightarrow> False
          | Returns None \<Rightarrow> False
          | Returns (Some u) \<Rightarrow>
              (case wallet_address u of
                 None \<Rightarrow> False
               | Some a \<Rightarrow>
                   if a = [] then False
                   else case getBalance a of
                     Throws _ \<Rightarrow> False
                   | Returns balance \<Rightarrow>
                       let balanceFormatted = fl (of_int balance / 10 ^ 18)
                       in case balanceMatch c of
                         Some (operator, thr) \<Rightarrow>
                           applyOperator operator balanceFormatted (fl (decimalValue thr))
                       | None \<Rightarrow> False))"

text \<open>
  The grammar of the specification, written from its words: a predicate is the keyword
  \<^verbatim>\<open>balance\<close> (in any letter case), an operator among \<^verbatim>\<open>>=\<close>, \<^verbatim>\<open>>\<close>, \<^verbatim>\<open><=\<close>, \<^verbatim>\<open><\<close>, and a
  non-negative decimal threshold, with optional white space between them. A condition
  string contains a predicate when some substring of it is one.
\<close>

definition isDecimal :: "string \<Rightarrow> bool" where
  "isDecimal thr =
     (\<exists>ds fs. ds \<noteq> [] \<and> (\<forall>c \<in> set ds. isDigit c) \<and> (\<forall>c \<in> set fs. isDigit c) \<and>
        (thr = ds \<or> thr = ds @ ''.'' @ fs))"

definition encodesPredicate :: "string \<Rightarrow> string \<Rightarrow> string \<Rightarrow> bool" where
  "encodesPredicate s op thr =
     (\<exists>b ws1 ws2. s = b @ ws1 @ op @ ws2 @ thr \<and> toLowerCase b = ''balance'' \<and>
        (\<forall>c \<in> set ws1. isWhiteSpace c) \<and> (\<forall>c \<in> set ws2. isWhiteSpace c) \<and>
        op \<in> set operators \<and> isDecimal thr)"

definition containsPredicate :: "string \<Rightarrow> string \<Rightarrow> string \<Rightarrow> bool" where
  "containsPredicate s op thr = (\<exists>pre m post. s = pre @ m @ post \<and> encodesPredicate m op thr)"

text \<open>
  The predicate a condition string is read as, when it contains several or has text
  around one: the leftmost one, no predicate beginning before it, with the threshold
  taken to its full length, the text after it neither continuing the digits nor adding a
  decimal point to a threshold that has none.
\<close>

definition fullThreshold :: "string \<Rightarrow> string \<Rightarrow> bool" where
  "fullThreshold thr post =
     (case post of
        [] \<Rightarrow> True
      | x # rest \<Rightarrow> \<not> isDigit x \<and> (x \<noteq> CHR ''.'' \<or> CHR ''.'' \<in> set thr))"

definition startsWithPredicate :: "string \<Rightarrow> bool" where
  "startsWithPredicate s = (\<exists>m post op thr. s = m @ post \<and> encodesPredicate m op thr)"

definition leftmostPredicate :: "string \<Rightarrow> string \<Rightarrow> string \<Rightarrow> bool" where
  "leftmostPredicate s op thr =
     (\<exists>pre m post. s = pre @ m @ post \<and> encodesPredicate m op thr \<and> fullThreshold thr post \<and>
        (\<forall>p1 p2. pre = p1 @ p2 \<and> p2 \<noteq> [] \<longrightarrow> \<not> startsWithPredicate (p2 @ m @ post)))"

section \<open>Execution engine\<close>

text \<open>
  The library functions the engine calls, as parameters: \<open>parseFloat\<close> (\<open>None\<close> is NaN),
  the text of a number in a template literal, \<^verbatim>\<open>Number.prototype.toFixed(6)\<close>,
  \<^verbatim>\<open>ethers.utils.parseUnits(amount.toString(), 18)\<close> as a function of the number (it
  throws on what is not a decimal numeral of at most 18 fractional digits), the address
  of \<^verbatim>\<open>new ethers.Wallet(privateKey)\<close> (which throws on a malformed key),
  \<^verbatim>\<open>ethers.utils.isAddress\<close>, and the rounding to double.
\<close>

record lib =
  parseFloat :: "string \<Rightarrow> rat option"
  showNumber :: "rat option \<Rightarrow> string"
  toFixed6 :: "rat \<Rightarrow> string"
  parseUnits18 :: "rat option \<Rightarrow> int attempt"
  walletAddressOf :: "string \<Rightarrow> string attempt"
  isAddress :: "string \<Rightarrow> bool"
  roundDouble :: "rat \<Rightarrow> rat"

text \<open>
  The answers of the RPC provider, one field for each place a call is made: the
  balance precheck of \<^verbatim>\<open>verifyBalance\<close> (\<open>vb\<close>), then in \<^verbatim>\<open>execute\<close> the balance, the fee
  estimate (\<open>est\<close>), its \<^verbatim>\<open>catch\<close> branch (\<open>fb\<close>), and the submission (\<open>sub\<close>). Amounts are
  in wei; an absent fee field is null.
\<close>

record feeData =
  gasPrice :: "int option"
  maxFeePerGas :: "int option"
  maxPriorityFeePerGas :: "int option"

record rpc =
  vb_getBalance :: "int attempt"
  vb_getFeeData :: "feeData attempt"
  vb_getGasPrice :: "int attempt"
  ex_getBalance :: "int attempt"
  est_estimateGas :: "int attempt"
  est_getFeeData :: "feeData attempt"
  est_getGasPrice :: "int attempt"
  fb_getFeeData :: "feeData attempt"
  fb_getGasPrice :: "int attempt"
  sub_getFeeData :: "feeData attempt"
  sub_estimateGas :: "int attempt"
  sub_sendTransaction :: "string attempt"
  sub_wait :: "string attempt"

record txRequest =
  tx_to :: string
  tx_value :: int
  tx_gasLimit :: int
  tx_maxFeePerGas :: "int option"
  tx_maxPriorityFeePerGas :: "int option"
  tx_gasPrice :: "int option"
  tx_type :: "int option"

text \<open>The calls made to the blockchain, in order: the observable effect of the engine.\<close>

datatype rpc_call =
    GetBalance
  | EstimateGas
  | GetFeeData
  | GetGasPrice
  | SendTransaction txRequest
  | WaitForReceipt

record ExecutionResult =
  success :: bool
  transactionId :: "string option"
  result_status :: string
  error :: "string option"

definition failed :: "string \<Rightarrow> ExecutionResult" where
  "failed msg = \<lparr>success = False, transactionId = None, result_status = ''failed'', error = Some msg\<rparr>"

text \<open>The outer \<^verbatim>\<open>catch\<close>: \<^verbatim>\<open>error.message || 'Execution failed'\<close>.\<close>

definition caught :: "string \<Rightarrow> ExecutionResult" where
  "caught msg = failed (if msg = [] then ''Execution failed'' else msg)"

text \<open>
  The validation sequence of \<^verbatim>\<open>execute\<close>, up to the conversion of the amount to wei.
  \<open>Inl\<close> is the result returned early; \<open>Inr\<close> carries the wallet address, the parsed amount
  and the amount in wei. NaN passes the test \<^verbatim>\<open>amount <= 0\<close> and fails in the conversion.
\<close>

definition validate ::
  "lib \<Rightarrow> (nat \<Rightarrow> user option attempt) \<Rightarrow> payment \<Rightarrow> string
     \<Rightarrow> ExecutionResult + (string \<times> rat option \<times> int)" where
  "validate l getUserById scheduledPayment privateKey =
     (case getUserById (user_id scheduledPayment) of
        Throws e \<Rightarrow> Inl (caught e)
      | Returns None \<Rightarrow> Inl (failed ''User or wallet not found'')
      | Returns (Some u) \<Rightarrow>
          (case wallet_address u of
             None \<Rightarrow> Inl (failed ''User or wallet not found'')
           | Some userAddress \<Rightarrow>
               if userAddress = [] then Inl (failed ''User or wallet not found'')
               else case walletAddressOf l privateKey of
                 Throws e \<Rightarrow> Inl (failed ''Invalid private key format'')
               | Returns address \<Rightarrow>
                   if toLowerCase address \<noteq> toLowerCase userAddress
                   then Inl (failed ''Private key does not match wallet address'')
                   else let amt = parseFloat l (amount scheduledPayment)
                     in if (case amt of None \<Rightarrow> False | Some a \<Rightarrow> a \<le> 0)
                        then Inl (failed ''Invalid amount'')
                        else if \<not> isAddress l (to_address scheduledPayment)
                        then Inl (failed ''Invalid recipient address'')
                        else if toLowerCase address = toLowerCase (to_address scheduledPayment)
                        then Inl (failed ''Cannot transfer to own wallet'')
                        else case parseUnits18 l amt of
                          Throws e \<Rightarrow> Inl (caught e)
                        | Returns amountWei \<Rightarrow> Inr (address, amt, amountWei)))"

text \<open>
  \<^verbatim>\<open>feeData.gasPrice || feeData.maxFeePerGas || await provider.getGasPrice()\<close>: a big
  number is an object and so truthy, whatever its value; the provider is asked only when
  both fields are null.
\<close>

definition pickGasPrice :: "feeData \<Rightarrow> int attempt \<Rightarrow> int attempt \<times> rpc_call list" where
  "pickGasPrice fd getGasPrice =
     (case gasPrice fd of
        Some g \<Rightarrow> (Returns g, [])
      | None \<Rightarrow>
          (case maxFeePerGas fd of
             Some g \<Rightarrow> (Returns g, [])
           | None \<Rightarrow> (getGasPrice, [GetGasPrice])))"

text \<open>
  The block "Estimate gas": the \<^verbatim>\<open>try\<close> part, and the \<^verbatim>\<open>catch\<close> part that replaces the
  estimate by twice 21000 gas when anything in the \<^verbatim>\<open>try\<close> part threw. An error thrown in
  the \<^verbatim>\<open>catch\<close> part leaves the block.
\<close>

definition estimatePrimary :: "rpc \<Rightarrow> int attempt \<times> rpc_call list" where
  "estimatePrimary r =
     (case est_estimateGas r of
        Throws e \<Rightarrow> (Throws e, [EstimateGas])
      | Returns gasEstimate \<Rightarrow>
          (case est_getFeeData r of
             Throws e \<Rightarrow> (Throws e, [EstimateGas, GetFeeData])
           | Returns fd \<Rightarrow>
               (case pickGasPrice fd (est_getGasPrice r) of
                  (Throws e, calls) \<Rightarrow> (Throws e, [EstimateGas, GetFeeData] @ calls)
                | (Returns price, calls) \<Rightarrow>
                    (Returns (gasEstimate * price), [EstimateGas, GetFeeData] @ calls))))"

definition estimateFallback :: "rpc \<Rightarrow> int attempt \<times> rpc_call list" where
  "estimateFallback r =
     (case fb_getFeeData r of
        Throws e \<Rightarrow> (Throws e, [GetFeeData])
      | Returns fd \<Rightarrow>
          (case pickGasPrice fd (fb_getGasPrice r) of
             (Throws e, calls) \<Rightarrow> (Throws e, GetFeeData # calls)
           | (Returns price, calls) \<Rightarrow> (Returns (21000 * 2 * price), GetFeeData # calls)))"

definition estimateGasCost :: "rpc \<Rightarrow> int attempt \<times> rpc_call list" where
  "estimateGasCost r =
     (case estimatePrimary r of
        (Returns cost, calls) \<Rightarrow> (Returns cost, calls)
      | (Throws e, calls) \<Rightarrow>
          (case estimateFallback r of (res, calls2) \<Rightarrow> (res, calls @ calls2)))"

text \<open>The message of the insufficient-balance result.\<close>

definition insufficientMessage :: "lib \<Rightarrow> int \<Rightarrow> rat option \<Rightarrow> int \<Rightarrow> string" where
  "insufficientMessage l balance amt estimatedGasCost =
     ''Insufficient balance. Available: ''
       @ toFixed6 l (roundDouble l (of_int balance / 10 ^ 18))
       @ '', Requested: '' @ showNumber l amt
       @ '', Estimated gas: ''
       @ toFixed6 l (roundDouble l (of_int estimatedGasCost / 10 ^ 18))
       @ ''. Maximum transferable: ''
       @ toFixed6 l (roundDouble l (of_int (balance - estimatedGasCost) / 10 ^ 18))"

text \<open>\<^verbatim>\<open>gasEstimate.mul(120).div(100)\<close>; big-number division truncates toward zero.\<close>

definition withBuffer :: "int \<Rightarrow> int" where
  "withBuffer g = (if 0 \<le> g then (g * 120) div 100 else - ((- g * 120) div 100))"

text \<open>
  The blocks "Prepare transaction" to "Wait for confirmation". The bookkeeping after the
  confirmation (payment history, notifications, e-mail) is wrapped in \<^verbatim>\<open>try\<close>/\<^verbatim>\<open>catch\<close>
  and cannot change the result; it is left out.
\<close>

definition submit ::
  "rpc \<Rightarrow> payment \<Rightarrow> int \<Rightarrow> ExecutionResult \<times> rpc_call list" where
  "submit r scheduledPayment amountWei =
     (case sub_getFeeData r of
        Throws e \<Rightarrow> (caught e, [GetFeeData])
      | Returns fd \<Rightarrow>
          let gasLimit = (case sub_estimateGas r of
                            Returns g \<Rightarrow> withBuffer g
                          | Throws e \<Rightarrow> 21000);
              request0 = \<lparr>tx_to = to_address scheduledPayment, tx_value = amountWei,
                           tx_gasLimit = gasLimit, tx_maxFeePerGas = None,
                           tx_maxPriorityFeePerGas = None, tx_gasPrice = None, tx_type = None\<rparr>;
              request =
                (if maxFeePerGas fd \<noteq> None \<and> maxPriorityFeePerGas fd \<noteq> None
                 then request0\<lparr>tx_maxFeePerGas := maxFeePerGas fd,
                                tx_maxPriorityFeePerGas := maxPriorityFeePerGas fd,
                                tx_type := Some 2\<rparr>
                 else if gasPrice fd \<noteq> None
                 then request0\<lparr>tx_gasPrice := gasPrice fd\<rparr>
                 else request0);
              calls = [GetFeeData, EstimateGas, SendTransaction request]
          in case sub_sendTransaction r of
               Throws e \<Rightarrow> (caught e, calls)
             | Returns hash \<Rightarrow>
                 (case sub_wait r of
                    Throws e \<Rightarrow> (caught e, calls @ [WaitForReceipt])
                  | Returns transactionHash \<Rightarrow>
                      (\<lparr>success = True, transactionId = Some transactionHash,
                        result_status = ''executed'', error = None\<rparr>,
                       calls @ [WaitForReceipt])))"

text \<open>\<^verbatim>\<open>ExecutionEngine.execute(scheduledPayment, privateKey)\<close>.\<close>

definition execute ::
  "lib \<Rightarrow> (nat \<Rightarrow> user option attempt) \<Rightarrow> rpc \<Rightarrow> payment \<Rightarrow> string
     \<Rightarrow> ExecutionResult \<times> rpc_call list" where
  "execute l getUserById r scheduledPayment privateKey =
     (case validate l getUserById scheduledPayment privateKey of
        Inl res \<Rightarrow> (res, [])
      | Inr (address, amt, amountWei) \<Rightarrow>
          (case ex_getBalance r of
             Throws e \<Rightarrow> (caught e, [GetBalance])
           | Returns balance \<Rightarrow>
               (case estimateGasCost r of
                  (Throws e, calls) \<Rightarrow> (caught e, GetBalance # calls)
                | (Returns estimatedGasCost, calls) \<Rightarrow>
                    let totalRequired = amountWei + estimatedGasCost
                    in if balance < totalRequired
                       then (failed (insufficientMessage l balance amt estimatedGasCost),
                             GetBalance # calls)
                       else (case submit r scheduledPayment amountWei of
                               (res, calls2) \<Rightarrow> (res, GetBalance # calls @ calls2)))))"

text \<open>\<^verbatim>\<open>ExecutionEngine.verifyBalance(walletAddress, requiredAmount)\<close>, in numbers.\<close>

record balanceCheck =
  check_success :: bool
  check_error :: "string option"
  isSufficient :: bool

definition verifyBalance :: "lib \<Rightarrow> rpc \<Rightarrow> rat option \<Rightarrow> balanceCheck \<times> rpc_call list" where
  "verifyBalance l r requiredAmount =
     (let thrown = (\<lambda>e. \<lparr>check_success = False, check_error = Some e, isSufficient = False\<rparr>)
      in case vb_getBalance r of
        Throws e \<Rightarrow> (thrown e, [GetBalance])
      | Returns balance \<Rightarrow>
          (case vb_getFeeData r of
             Throws e \<Rightarrow> (thrown e, [GetBalance, GetFeeData])
           | Returns fd \<Rightarrow>
               (case pickGasPrice fd (vb_getGasPrice r) of
                  (Throws e, calls) \<Rightarrow> (thrown e, [GetBalance, GetFeeData] @ calls)
                | (Returns price, calls) \<Rightarrow>
                    let balanceFormatted = roundDouble l (of_int balance / 10 ^ 18);
                        gasCostFormatted = roundDouble l (of_int (21000 * 2 * price) / 10 ^ 18);
                        sufficient =
                          (case requiredAmount of
                             None \<Rightarrow> False
                           | Some a \<Rightarrow> balanceFormatted \<ge> roundDouble l (a + gasCostFormatted))
                    in (\<lparr>check_success = True, check_error = None, isSufficient = sufficient\<rparr>,
                        [GetBalance, GetFeeData] @ calls))))"

section \<open>Scheduler: executing a due payment\<close>

record autoPayStatus =
  enabled :: bool
  encryptedPrivateKey :: "string option"

text \<open>
  \<^verbatim>\<open>executeScheduledPayment(scheduledPayment)\<close>, for the row \<open>scheduledPayment\<close> with id
  \<open>paymentId\<close>. The result is the returned boolean, the table of scheduled payments after
  the call of \<^verbatim>\<open>updateAfterExecution\<close>, and the blockchain calls made. \<open>report\<close> is that
  call with \<open>executed = false\<close>; an error thrown by a database lookup reaches the outer
  \<^verbatim>\<open>catch\<close>, which reports its message.
\<close>

definition executeScheduledPayment ::
  "lib \<Rightarrow> (nat \<Rightarrow> user option attempt) \<Rightarrow> (nat \<Rightarrow> autoPayStatus option attempt)
     \<Rightarrow> (string \<Rightarrow> string attempt) \<Rightarrow> rpc \<Rightarrow> zone \<Rightarrow> int \<Rightarrow> int \<Rightarrow> store \<Rightarrow> nat \<Rightarrow> payment
     \<Rightarrow> bool \<times> store \<times> rpc_call list" where
  "executeScheduledPayment l getUserById getAutoPayStatus decryptPrivateKey r tz now dateNow db
       paymentId scheduledPayment =
     (let report = (\<lambda>msg calls.
            (False, snd (updateAfterExecution tz now dateNow db paymentId False msg), calls))
      in case getUserById (user_id scheduledPayment) of
        Throws e \<Rightarrow> report (Some e) []
      | Returns None \<Rightarrow> report (Some ''User or wallet not found'') []
      | Returns (Some u) \<Rightarrow>
          if (case wallet_address u of None \<Rightarrow> True | Some a \<Rightarrow> a = [])
          then report (Some ''User or wallet not found'') []
          else case getAutoPayStatus (user_id scheduledPayment) of
            Throws e \<Rightarrow> report (Some e) []
          | Returns None \<Rightarrow> report (Some ''Automatic payments not enabled'') []
          | Returns (Some st) \<Rightarrow>
              (case encryptedPrivateKey st of
                 None \<Rightarrow> report (Some ''Automatic payments not enabled'') []
               | Some key \<Rightarrow>
                   if \<not> enabled st \<or> key = []
                   then report (Some ''Automatic payments not enabled'') []
                   else case decryptPrivateKey key of
                     Throws e \<Rightarrow> report (Some ''Failed to decrypt private key'') []
                   | Returns privateKey \<Rightarrow>
                       (case verifyBalance l r (parseFloat l (amount scheduledPayment)) of
                          (balanceCheck, calls) \<Rightarrow>
                            if \<not> check_success balanceCheck \<or> \<not> isSufficient balanceCheck
                            then report
                                   (Some (''Insufficient balance: '' @
                                      (case check_error balanceCheck of
                                         None \<Rightarrow> ''Balance check failed''
                                       | Some e \<Rightarrow> if e = [] then ''Balance check failed'' else e)))
                                   calls
                            else case execute l getUserById r scheduledPayment privateKey of
                              (res, calls2) \<Rightarrow>
                                if success res
                                then (True,
                                      snd (updateAfterExecution tz now dateNow db paymentId True None),
                                      calls @ calls2)
                                else report (error res) (calls @ calls2))))"

text \<open>A user table for concrete instances: user 1 has a wallet, user 2 has none.\<close>

definition exampleUsers :: "nat \<Rightarrow> user option attempt" where
  "exampleUsers i =
     (if i = 1 then Returns (Some \<lparr>wallet_address = Some ''0x00000000000000000000000000000000000000a0''\<rparr>)
      else if i = 2 then Returns (Some \<lparr>wallet_address = None\<rparr>)
      else Returns None)"

text \<open>An entry with the decision-relevant columns left open, for concrete instances.\<close>

definition examplePayment ::
  "string \<Rightarrow> string option \<Rightarrow> jsdate option \<Rightarrow> int option \<Rightarrow> int option \<Rightarrow> int option \<Rightarrow> payment" where
  "examplePayment ty freq endd lastd cnt maxe =
     \<lparr>user_id = 1, payment_type = ty, to_address = ''0x00000000000000000000000000000000000000b0'',
      amount = ''5'', frequency = freq, condition = None, start_date = None, end_date = endd,
      next_execution_date = Some 1738281600000, last_execution_date = lastd,
      execution_count = cnt, max_executions = maxe, status = ''active''\<rparr>"

text \<open>
  A zone with a daylight-saving change, for concrete instances: New York around the
  change of 9 March 2025, five hours behind UTC before 07:00 UTC and four hours behind
  from then on. The local clock goes from 02:00 to 03:00; a local time in the skipped
  hour is read with the offset before the change.
\<close>

definition exampleZoneNewYork :: zone where
  "exampleZoneNewYork =
     \<lparr>offsetAtUTC = (\<lambda>t. if t < 1741503600000 then - 18000000 else - 14400000),
      offsetAtLocal = (\<lambda>t. if t < 1741489200000 then - 18000000 else - 14400000)\<rparr>"

text \<open>
  Library functions and provider answers for concrete instances: exact arithmetic in
  place of doubles, numbers written as an integer or else with six decimals, a gas
  estimate of 21000 at a gas price of 2 gwei, and a balance left open. No user has enabled
  automatic payments.
\<close>

definition showFixed6 :: "rat \<Rightarrow> string" where
  "showFixed6 x =
     (let n = nat (floor (\<bar>x\<bar> * 10 ^ 6 + 1 / 2));
          frac = showNat (n mod 10 ^ 6)
      in (if x < 0 \<and> 0 < n then ''-'' else [])
         @ showNat (n div 10 ^ 6) @ ''.'' @ drop (length frac) ''000000'' @ frac)"

definition exampleLib :: lib where
  "exampleLib =
     \<lparr>parseFloat = (\<lambda>s. if s = [] then None else Some (decimalValue s)),
      showNumber = (\<lambda>a. case a of
                          None \<Rightarrow> ''NaN''
                        | Some x \<Rightarrow> if 0 \<le> x \<and> x = of_int (floor x)
                                    then showNat (nat (floor x)) else showFixed6 x),
      toFixed6 = showFixed6,
      parseUnits18 = (\<lambda>a. case a of None \<Rightarrow> Throws ''invalid decimal value''
                                | Some x \<Rightarrow> Returns (floor (x * 10 ^ 18))),
      walletAddressOf = (\<lambda>k. if k = ''key-of-user-1''
                              then Returns ''0x00000000000000000000000000000000000000A0''
                              else Throws ''invalid private key''),
      isAddress = (\<lambda>s. length s = 42),
      roundDouble = (\<lambda>x. x)\<rparr>"

definition exampleRpc :: "int \<Rightarrow> rpc" where
  "exampleRpc balance =
     (let fd = \<lparr>gasPrice = Some 2000000000, maxFeePerGas = None, maxPriorityFeePerGas = None\<rparr>
      in \<lparr>vb_getBalance = Returns balance, vb_getFeeData = Returns fd,
          vb_getGasPrice = Returns 2000000000,
          ex_getBalance = Returns balance,
          est_estimateGas = Returns 21000, est_getFeeData = Returns fd,
          est_getGasPrice = Returns 2000000000,
          fb_getFeeData = Returns fd, fb_getGasPrice = Returns 2000000000,
          sub_getFeeData = Returns fd, sub_estimateGas = Returns 21000,
          sub_sendTransaction = Returns ''0xhash'', sub_wait = Returns ''0xhash''\<rparr>)"

definition exampleAutoPay :: "nat \<Rightarrow> autoPayStatus option attempt" where
  "exampleAutoPay i = Returns (Some \<lparr>enabled = False, encryptedPrivateKey = None\<rparr>)"

section \<open>Properties of the date arithmetic\<close>

lemma div_step:
  fixes a n :: int
  assumes "0 < n"
  shows "(a + 1) div n = a div n + (if n dvd (a + 1) then 1 else 0)"
proof (cases "n dvd (a + 1)")
  case True
  then obtain k where k: "a + 1 = n * k" by (auto simp: dvd_def)
  have "a = n * (k - 1) + (n - 1)" using k by (simp add: algebra_simps)
  then have "a div n = k - 1"
    using assms by (intro int_div_pos_eq[where r = "n - 1"]) auto
  moreover have "(a + 1) div n = k" using k assms by simp
  ultimately show ?thesis using True by simp
next
  case False
  let ?r = "a mod n"
  have r: "0 \<le> ?r" "?r < n" using assms by auto
  have "?r + 1 \<noteq> n"
  proof
    assume "?r + 1 = n"
    then have "a + 1 = n * (a div n + 1)"
      by (metis add.assoc distrib_left mult.right_neutral mult_div_mod_eq)
    then show False using False by (metis dvd_triv_left)
  qed
  then have "?r + 1 < n" using r by linarith
  moreover have "a + 1 = n * (a div n) + (?r + 1)" by simp
  ultimately have "(a + 1) div n = a div n"
    using r by (intro int_div_pos_eq[where r = "?r + 1"]) auto
  then show ?thesis using False by simp
qed

lemma dvd_shift: "n dvd k \<Longrightarrow> (n dvd (y - k)) = (y mod n = 0)" for y n k :: int
  by (simp add: dvd_diff_left_iff mod_eq_0_iff_dvd)

lemma mod_coarser: "m dvd n \<Longrightarrow> y mod n = 0 \<Longrightarrow> y mod m = 0" for y m n :: int
  by (meson dvd_trans mod_eq_0_iff_dvd)

lemma dayFromYear_Suc: "dayFromYear (y + 1) = dayFromYear y + daysInYear y"
proof -
  have a: "(y - 1968) div 4 = (y - 1969) div 4 + (if y mod 4 = 0 then 1 else 0)"
    using div_step[of 4 "y - 1969"] dvd_shift[of 4 1968 y] by simp
  have b: "(y - 1900) div 100 = (y - 1901) div 100 + (if y mod 100 = 0 then 1 else 0)"
    using div_step[of 100 "y - 1901"] dvd_shift[of 100 1900 y] by simp
  have c: "(y - 1600) div 400 = (y - 1601) div 400 + (if y mod 400 = 0 then 1 else 0)"
    using div_step[of 400 "y - 1601"] dvd_shift[of 400 1600 y] by simp
  have d: "y mod 400 = 0 \<Longrightarrow> y mod 100 = 0"
    by (rule mod_coarser[of 100 400]) simp_all
  have e: "y mod 100 = 0 \<Longrightarrow> y mod 4 = 0"
    by (rule mod_coarser[of 4 100]) simp_all
  have "dayFromYear (y + 1) = 365 * (y - 1969) + (y - 1968) div 4 - (y - 1900) div 100 + (y - 1600) div 400"
    unfolding dayFromYear_def by (simp add: algebra_simps)
  also have "\<dots> = dayFromYear y + daysInYear y"
    unfolding dayFromYear_def daysInYear_def a b c using d e by auto
  finally show ?thesis .
qed


lemma monthFromTime_range: "0 \<le> monthFromTime t \<and> monthFromTime t \<le> 11"
  by (simp add: monthFromTime_def Let_def)

lemma makeDay_in_year:
  "0 \<le> m \<Longrightarrow> m \<le> 11 \<Longrightarrow>
   makeDay y m d = dayFromYear y + daysBeforeMonth m (if daysInYear y = 366 then 1 else 0) + d - 1"
  by (simp add: makeDay_def Let_def)

lemma makeDay_date_add: "makeDay y m (d + k) = makeDay y m d + k"
  by (simp add: makeDay_def Let_def)

lemma date_from_month:
  "dateFromTime t = dayWithinYear t - daysBeforeMonth (monthFromTime t) (inLeapYear t) + 1"
  by (simp add: dateFromTime_def monthFromTime_def daysBeforeMonth_def Let_def)

lemma makeDay_of_fields:
  "makeDay (yearFromTime t) (monthFromTime t) (dateFromTime t) = day t"
  using monthFromTime_range[of t]
  by (simp add: makeDay_in_year date_from_month inLeapYear_def dayWithinYear_def)

lemma makeDate_day_time: "makeDate (day t) (timeWithinDay t) = t"
  by (simp add: makeDate_def day_def timeWithinDay_def)

lemma makeDate_shift: "makeDate (day t + k) (timeWithinDay t) = t + k * msPerDay"
  by (simp add: makeDate_def day_def timeWithinDay_def algebra_simps)

lemma setDate_getDate_add:
  "setDate tz t (getDate tz t + k) = utc tz (localTime tz t + k * msPerDay)"
proof -
  let ?lt = "localTime tz t"
  have "makeDay (yearFromTime ?lt) (monthFromTime ?lt) (dateFromTime ?lt + k) = day ?lt + k"
    by (simp add: makeDay_date_add makeDay_of_fields)
  then have "setDate tz t (getDate tz t + k) = utc tz (makeDate (day ?lt + k) (timeWithinDay ?lt))"
    by (simp add: setDate_def getDate_def Let_def)
  also have "\<dots> = utc tz (?lt + k * msPerDay)"
    by (simp only: makeDate_shift)
  finally show ?thesis .
qed

lemma makeDay_next_month:
  assumes "0 \<le> m" "m \<le> 11"
  shows "makeDay y (m + 1) d = makeDay y m d + daysInMonth y m"
proof (cases "m = 11")
  case True
  have "makeDay y 12 d = dayFromYear (y + 1) + d - 1"
    by (simp add: makeDay_def Let_def daysBeforeMonth_def)
  moreover have "makeDay y 11 d = dayFromYear y + (334 + (if daysInYear y = 366 then 1 else 0)) + d - 1"
    by (simp add: makeDay_def Let_def daysBeforeMonth_def)
  moreover have "daysInYear y = 365 + (if daysInYear y = 366 then 1 else 0)"
    by (simp add: daysInYear_def)
  ultimately show ?thesis
    using True by (simp add: dayFromYear_Suc daysInMonth_def)
next
  case False
  then have m: "m = 0 \<or> m = 1 \<or> m = 2 \<or> m = 3 \<or> m = 4 \<or> m = 5 \<or> m = 6 \<or> m = 7 \<or> m = 8 \<or> m = 9 \<or> m = 10"
    using assms by arith
  then show ?thesis
    by (elim disjE) (simp_all add: makeDay_def Let_def daysBeforeMonth_def daysInMonth_def)
qed

lemma makeDay_next_year:
  assumes "0 \<le> m" "m \<le> 11"
  shows "makeDay (y + 1) m d = makeDay y m d + (if m < 2 then daysInYear y else daysInYear (y + 1))"
proof -
  have l: "daysInYear z = 365 + (if daysInYear z = 366 then 1 else 0)" for z
    by (simp add: daysInYear_def)
  have m: "m = 0 \<or> m = 1 \<or> m = 2 \<or> m = 3 \<or> m = 4 \<or> m = 5 \<or> m = 6 \<or> m = 7 \<or> m = 8 \<or> m = 9 \<or> m = 10 \<or> m = 11"
    using assms by arith
  have "makeDay (y + 1) m d = dayFromYear y + daysInYear y
          + daysBeforeMonth m (if daysInYear (y + 1) = 366 then 1 else 0) + d - 1"
    using assms by (simp add: makeDay_in_year dayFromYear_Suc)
  moreover have "makeDay y m d = dayFromYear y
          + daysBeforeMonth m (if daysInYear y = 366 then 1 else 0) + d - 1"
    using assms by (simp add: makeDay_in_year)
  moreover have "daysInYear y + daysBeforeMonth m (if daysInYear (y + 1) = 366 then 1 else 0)
      = daysBeforeMonth m (if daysInYear y = 366 then 1 else 0)
        + (if m < 2 then daysInYear y else daysInYear (y + 1))"
    using m l[of y] l[of "y + 1"] by (elim disjE) (simp_all add: daysBeforeMonth_def)
  ultimately show ?thesis by simp
qed

lemma setMonth_next:
  "setMonth tz t (getMonth tz t + 1) =
     utc tz (localTime tz t + daysInMonth (getFullYear tz t) (getMonth tz t) * msPerDay)"
proof -
  let ?lt = "localTime tz t"
  have "makeDay (yearFromTime ?lt) (monthFromTime ?lt + 1) (dateFromTime ?lt)
          = day ?lt + daysInMonth (yearFromTime ?lt) (monthFromTime ?lt)"
    using monthFromTime_range[of ?lt] by (simp add: makeDay_next_month makeDay_of_fields)
  then have "setMonth tz t (getMonth tz t + 1)
      = utc tz (makeDate (day ?lt + daysInMonth (yearFromTime ?lt) (monthFromTime ?lt)) (timeWithinDay ?lt))"
    by (simp add: setMonth_def getMonth_def Let_def)
  also have "\<dots> = utc tz (?lt + daysInMonth (yearFromTime ?lt) (monthFromTime ?lt) * msPerDay)"
    by (simp only: makeDate_shift)
  finally show ?thesis by (simp add: getFullYear_def getMonth_def)
qed

lemma setFullYear_next:
  "setFullYear tz t (getFullYear tz t + 1) =
     utc tz (localTime tz t
             + (if getMonth tz t < 2 then daysInYear (getFullYear tz t)
                else daysInYear (getFullYear tz t + 1)) * msPerDay)"
proof -
  let ?lt = "localTime tz t"
  let ?k = "if monthFromTime ?lt < 2 then daysInYear (yearFromTime ?lt)
            else daysInYear (yearFromTime ?lt + 1)"
  have "makeDay (yearFromTime ?lt + 1) (monthFromTime ?lt) (dateFromTime ?lt) = day ?lt + ?k"
    using monthFromTime_range[of ?lt] makeDay_next_year[of "monthFromTime ?lt" "yearFromTime ?lt" "dateFromTime ?lt"]
    by (simp add: makeDay_of_fields)
  then have "setFullYear tz t (getFullYear tz t + 1)
      = utc tz (makeDate (day ?lt + ?k) (timeWithinDay ?lt))"
    by (simp add: setFullYear_def getFullYear_def Let_def)
  also have "\<dots> = utc tz (?lt + ?k * msPerDay)"
    by (simp only: makeDate_shift)
  finally show ?thesis by (simp add: getFullYear_def getMonth_def)
qed

text \<open>
  When the zone's offset at the new local time is the offset at the base, moving the local
  time moves the time value by the same amount.
\<close>

lemma utc_same_offset:
  "offsetAtLocal tz (localTime tz t + x) = offsetAtUTC tz t \<Longrightarrow> utc tz (localTime tz t + x) = t + x"
  by (simp add: utc_def localTime_def)

lemma dayFromYear_estimate:
  "146097 * j - 506 \<le> 400 * dayFromYear (1970 + j) \<and> 400 * dayFromYear (1970 + j) \<le> 146097 * j + 589"
proof -
  define A where "A = (j + 1) div 4"
  define B where "B = (j + 69) div 100"
  define C where "C = (j + 369) div 400"
  have a: "4 * A \<le> j + 1" "j + 1 \<le> 4 * A + 3" unfolding A_def by presburger+
  have b: "100 * B \<le> j + 69" "j + 69 < 100 * B + 100"
    unfolding B_def using div_mult_mod_eq[of "j + 69" 100] pos_mod_bound[of 100 "j + 69"] pos_mod_sign[of 100 "j + 69"]
    by linarith+
  have c: "400 * C \<le> j + 369" "j + 369 < 400 * C + 400"
    unfolding C_def using div_mult_mod_eq[of "j + 369" 400] pos_mod_bound[of 400 "j + 369"] pos_mod_sign[of 400 "j + 369"]
    by linarith+
  have "dayFromYear (1970 + j) = 365 * j + A - B + C"
    unfolding dayFromYear_def A_def B_def C_def by (simp add: algebra_simps)
  then show ?thesis using a b c by linarith
qed

lemma yearFromTime_spec:
  "dayFromYear (yearFromTime t) \<le> day t \<and> day t < dayFromYear (yearFromTime t + 1)"
proof -
  define d where "d = day t"
  define k where "k = (400 * d) div 146097"
  have k: "146097 * k \<le> 400 * d" "400 * d < 146097 * k + 146097"
    unfolding k_def using div_mult_mod_eq[of "400 * d" 146097] pos_mod_bound[of 146097 "400 * d"]
      pos_mod_sign[of 146097 "400 * d"] by linarith+
  have lo: "dayFromYear (1970 + k - 1) \<le> d"
    using dayFromYear_estimate[of "k - 1"] k by (simp add: algebra_simps)
  have hi: "d < dayFromYear (1970 + k + 1 + 1)"
    using dayFromYear_estimate[of "k + 2"] k by (simp add: algebra_simps)
  show ?thesis
    using lo hi unfolding yearFromTime_def d_def[symmetric] k_def[symmetric] Let_def
    by (auto simp: algebra_simps)
qed


lemma daysInMonth_pos: "28 \<le> daysInMonth y m"
  by (simp add: daysInMonth_def)

lemma daysInYear_pos: "365 \<le> daysInYear y"
  by (simp add: daysInYear_def)

lemma calculate_period:
  "calculateNextExecutionDate tz clock freq (Some base) =
     utc tz (localTime tz base
       + (if toLowerCase freq = ''weekly'' then 7
          else if toLowerCase freq = ''monthly''
            then daysInMonth (getFullYear tz base) (getMonth tz base)
          else if toLowerCase freq = ''yearly''
            then (if getMonth tz base < 2 then daysInYear (getFullYear tz base)
                  else daysInYear (getFullYear tz base + 1))
          else 1) * msPerDay)"
  by (simp add: calculateNextExecutionDate_def Let_def setDate_getDate_add setMonth_next
      setFullYear_next)

lemma makeDay_normalised:
  "makeDay y m d = makeDay (y + m div 12) (m mod 12) d"
  by (simp add: makeDay_def Let_def)

lemma setMonth_next_clamped:
  "setMonth tz t (getMonth tz t + 1) =
     utc tz (specAddMonthClampedLocal tz t
       + max 0 (getDate tz t
                - daysInMonth (getFullYear tz t + (getMonth tz t + 1) div 12)
                    ((getMonth tz t + 1) mod 12)) * msPerDay)"
proof -
  define lt where "lt = localTime tz t"
  define y where "y = yearFromTime lt + (monthFromTime lt + 1) div 12"
  define m where "m = (monthFromTime lt + 1) mod 12"
  define d where "d = dateFromTime lt"
  define n where "n = daysInMonth y m"
  have s: "d = min d n + max 0 (d - n)" by (simp add: min_def max_def)
  have "makeDay (yearFromTime lt) (monthFromTime lt + 1) d = makeDay y m d"
    unfolding y_def m_def by (rule makeDay_normalised)
  also have "\<dots> = makeDay y m (min d n + max 0 (d - n))" using s by simp
  also have "\<dots> = makeDay y m (min d n) + max 0 (d - n)" by (rule makeDay_date_add)
  finally have k: "makeDay (yearFromTime lt) (monthFromTime lt + 1) d
      = makeDay y m (min d n) + max 0 (d - n)" .
  have a: "setMonth tz t (getMonth tz t + 1)
      = utc tz (makeDate (makeDay (yearFromTime lt) (monthFromTime lt + 1) d) (timeWithinDay lt))"
    by (simp add: setMonth_def getMonth_def Let_def lt_def d_def)
  have b: "specAddMonthClampedLocal tz t = makeDate (makeDay y m (min d n)) (timeWithinDay lt)"
    by (simp add: specAddMonthClampedLocal_def Let_def lt_def d_def y_def m_def n_def)
  have c: "getDate tz t - daysInMonth (getFullYear tz t + (getMonth tz t + 1) div 12)
                    ((getMonth tz t + 1) mod 12) = d - n"
    by (simp add: getDate_def getFullYear_def getMonth_def lt_def d_def y_def m_def n_def)
  have "makeDate (makeDay y m (min d n) + max 0 (d - n)) (timeWithinDay lt)
      = makeDate (makeDay y m (min d n)) (timeWithinDay lt) + max 0 (d - n) * msPerDay"
    by (simp add: makeDate_def algebra_simps)
  then show ?thesis
    unfolding a b c k by simp
qed

section \<open>Properties of the string helpers\<close>

lemma isPrefixOf_iff: "isPrefixOf n h \<longleftrightarrow> (\<exists>post. h = n @ post)"
  by (induction n h rule: isPrefixOf.induct) auto

lemma includesStr_iff: "includesStr h n \<longleftrightarrow> (\<exists>pre post. h = pre @ n @ post)"
proof (induction h)
  case Nil
  then show ?case by auto
next
  case (Cons c cs)
  show ?case
  proof
    assume "includesStr (c # cs) n"
    then consider "isPrefixOf n (c # cs)" | "includesStr cs n" by auto
    then show "\<exists>pre post. c # cs = pre @ n @ post"
    proof cases
      case 1
      then obtain post where "c # cs = n @ post" by (auto simp: isPrefixOf_iff)
      then have "c # cs = [] @ n @ post" by simp
      then show ?thesis by blast
    next
      case 2
      then obtain pre post where "cs = pre @ n @ post" using Cons.IH by auto
      then have "c # cs = (c # pre) @ n @ post" by simp
      then show ?thesis by blast
    qed
  next
    assume "\<exists>pre post. c # cs = pre @ n @ post"
    then obtain pre post where e: "c # cs = pre @ n @ post" by auto
    show "includesStr (c # cs) n"
    proof (cases pre)
      case Nil
      then have "isPrefixOf n (c # cs)" using e by (auto simp: isPrefixOf_iff)
      then show ?thesis by simp
    next
      case (Cons a pre')
      then have "cs = pre' @ n @ post" using e by simp
      then have "includesStr cs n" using Cons.IH by blast
      then show ?thesis by simp
    qed
  qed
qed


section \<open>The update after an execution\<close>

text \<open>
  Claim C1, as stated, has a successful execution advance the next execution date by
  exactly one period of the frequency. For \<^verbatim>\<open>monthly\<close> the update stores what the recurrence
  function returns, which is not one calendar month: executed at 2025-01-31T00:00:00Z on
  a UTC host, the entry is next due on 2025-03-03, where one calendar month later is
  2025-02-28.
\<close>

theorem monthly_recurring_update_skips_february:
  "map_option next_execution_date
     (snd (updateAfterExecution (fixedZone 0) 1738281600000 1738281600002
        [1 \<mapsto> examplePayment ''RECURRING'' (Some ''monthly'') None None (Some 0) None] 1 True None)
      1)
     = Some (Some 1740960000000)
   \<and> specAddMonthClamped (fixedZone 0) 1738281600000 = 1740700800000
   \<and> (1740960000000 :: int) \<noteq> 1740700800000"
proof -
  have c: "calculateNextExecutionDate (fixedZone 0) 1738281600002 ''monthly'' (Some 1738281600000)
      = 1740960000000"
    by code_simp
  have s: "specAddMonthClamped (fixedZone 0) 1738281600000 = 1740700800000"
    by code_simp
  show ?thesis
    using c s by (simp add: updateAfterExecution_def examplePayment_def Let_def)
qed

text \<open>
  Claim C1, amended. A \<^verbatim>\<open>RECURRING\<close> entry with a frequency, when neither the execution
  cap nor a passed end date applies. After a successful execution the status is \<^verbatim>\<open>active\<close>
  and the stored next execution date is \<open>now\<close> moved forward, in the local time of the
  host, by seven days for \<^verbatim>\<open>weekly\<close>, by the number of days of the current month for
  \<^verbatim>\<open>monthly\<close> (the day-of-month is not clamped), by the number of days of the current year
  (in January and February) or of the next year (from March on) for \<^verbatim>\<open>yearly\<close>, and by one
  day for \<^verbatim>\<open>daily\<close> and any other frequency; that is \<open>now\<close> plus so many days of 86400000 ms
  when the zone's offset from UTC is the same at both ends. After a failed execution the
  status is \<^verbatim>\<open>active\<close> and the next execution date is the clock reading plus five minutes.
\<close>

theorem recurring_update:
  assumes "db paymentId = Some p"
    and "payment_type p = ''RECURRING''"
    and "frequency p = Some f" and "f \<noteq> []"
    and "\<not> capApplies p executed"
    and "\<not> endDatePassed p now"
  shows "fst (updateAfterExecution tz now dateNow db paymentId executed errorMessage) = True \<and>
    (\<exists>p'. snd (updateAfterExecution tz now dateNow db paymentId executed errorMessage) paymentId = Some p'
       \<and> status p' = ''active''
       \<and> (if executed
          then (let k = (if toLowerCase f = ''weekly'' then 7
                         else if toLowerCase f = ''monthly''
                           then daysInMonth (getFullYear tz now) (getMonth tz now)
                         else if toLowerCase f = ''yearly''
                           then (if getMonth tz now < 2 then daysInYear (getFullYear tz now)
                                 else daysInYear (getFullYear tz now + 1))
                         else 1)
                in next_execution_date p' = Some (utc tz (localTime tz now + k * msPerDay))
                   \<and> (offsetAtLocal tz (localTime tz now + k * msPerDay) = offsetAtUTC tz now
                        \<longrightarrow> next_execution_date p' = Some (now + k * msPerDay)))
          else next_execution_date p' = Some (dateNow + 5 * 60000)))"
  using assms calculate_period[of tz dateNow f now]
  by (simp add: updateAfterExecution_def capApplies_def endDatePassed_def Let_def utc_same_offset
      split: option.splits jsdate.splits)

theorem recurring_update_witness:
  "\<exists>p'. snd (updateAfterExecution (fixedZone 0) 1738281600000 1738281600002
             [1 \<mapsto> examplePayment ''RECURRING'' (Some ''weekly'') None None (Some 0) None] 1 True None) 1 = Some p'
        \<and> status p' = ''active''
        \<and> next_execution_date p' = Some 1738886400000"
proof -
  let ?p = "examplePayment ''RECURRING'' (Some ''weekly'') None None (Some 0) None"
  have l: "toLowerCase ''weekly'' = ''weekly''" by code_simp
  have "\<not> capApplies ?p True" "\<not> endDatePassed ?p 1738281600000"
    by (simp_all add: capApplies_def endDatePassed_def examplePayment_def)
  then show ?thesis
    using recurring_update[of "[1 \<mapsto> ?p]" 1 ?p "''weekly''" True 1738281600000 "fixedZone 0" 1738281600002 None]
    by (auto simp add: examplePayment_def l utc_def localTime_def fixedZone_def msPerDay_def)
qed

text \<open>
  Claim C2. A \<^verbatim>\<open>CONDITIONAL\<close> entry, when neither the execution cap nor a passed end
  date applies: a successful execution completes it and clears the next execution date;
  otherwise it stays active and is checked again five minutes after the clock reading when
  the error message contains \<^verbatim>\<open>Insufficient balance\<close>, and one minute after it otherwise.
\<close>

theorem conditional_update:
  assumes "db paymentId = Some p"
    and "payment_type p = ''CONDITIONAL''"
    and "\<not> capApplies p executed"
    and "\<not> endDatePassed p now"
  shows "fst (updateAfterExecution tz now dateNow db paymentId executed errorMessage) = True \<and>
    (\<exists>p'. snd (updateAfterExecution tz now dateNow db paymentId executed errorMessage) paymentId = Some p'
       \<and> (if executed
          then status p' = ''completed'' \<and> next_execution_date p' = None
          else status p' = ''active'' \<and>
               next_execution_date p' =
                 Some (dateNow +
                   (if (case errorMessage of None \<Rightarrow> False
                        | Some e \<Rightarrow> \<exists>pre post. e = pre @ ''Insufficient balance'' @ post)
                    then 5 * 60000 else 60000))))"
proof -
  have e: "(e \<noteq> [] \<and> includesStr e ''Insufficient balance'')
             = (\<exists>pre post. e = pre @ ''Insufficient balance'' @ post)" for e
    by (auto simp: includesStr_iff)
  show ?thesis
    using assms
    by (simp add: updateAfterExecution_def capApplies_def endDatePassed_def Let_def e
        split: option.splits jsdate.splits)
qed


theorem conditional_update_witness:
  "\<exists>p'. snd (updateAfterExecution (fixedZone 0) 1738281600000 1738281600002
             [1 \<mapsto> examplePayment ''CONDITIONAL'' None None None (Some 0) None] 1 False
             (Some ''Insufficient balance: Balance check failed'')) 1 = Some p'
        \<and> status p' = ''active''
        \<and> next_execution_date p' = Some 1738281900002"
proof -
  let ?p = "examplePayment ''CONDITIONAL'' None None None (Some 0) None"
  have i: "\<exists>pre post. ''Insufficient balance: Balance check failed''
             = pre @ ''Insufficient balance'' @ post"
    using includesStr_iff[of "''Insufficient balance: Balance check failed''" "''Insufficient balance''"]
    by simp
  have "\<not> capApplies ?p False" "\<not> endDatePassed ?p 1738281600000"
    by (simp_all add: capApplies_def endDatePassed_def examplePayment_def)
  then show ?thesis
    using conditional_update[of "[1 \<mapsto> ?p]" 1 ?p False 1738281600000 "fixedZone 0" 1738281600002
        "Some ''Insufficient balance: Balance check failed''"] i
    by (simp add: examplePayment_def)
qed

text \<open>
  Claim C3. A \<^verbatim>\<open>SINGLE\<close> entry, when neither the execution cap nor a passed end date
  applies: the status becomes \<^verbatim>\<open>completed\<close> after a successful execution and \<^verbatim>\<open>failed\<close>
  after a failed one; in both cases the next execution date is null and the readiness
  query never selects the entry again.
\<close>

theorem single_update:
  assumes "db paymentId = Some p"
    and "payment_type p = ''SINGLE''"
    and "\<not> capApplies p executed"
    and "\<not> endDatePassed p now"
  shows "fst (updateAfterExecution tz now dateNow db paymentId executed errorMessage) = True \<and>
    (\<exists>p'. snd (updateAfterExecution tz now dateNow db paymentId executed errorMessage) paymentId = Some p'
       \<and> status p' = (if executed then ''completed'' else ''failed'')
       \<and> next_execution_date p' = None
       \<and> (\<forall>t. \<not> isReady p' t))"
  using assms
  by (simp add: updateAfterExecution_def capApplies_def endDatePassed_def Let_def isReady_def
      split: option.splits jsdate.splits)


theorem single_update_witness:
  "\<exists>p'. snd (updateAfterExecution (fixedZone 0) 1738281600000 1738281600002
             [1 \<mapsto> examplePayment ''SINGLE'' None None None (Some 0) None] 1 False
             (Some ''Invalid recipient address'')) 1 = Some p'
        \<and> status p' = ''failed''
        \<and> next_execution_date p' = None"
proof -
  let ?p = "examplePayment ''SINGLE'' None None None (Some 0) None"
  have "\<not> capApplies ?p False" "\<not> endDatePassed ?p 1738281600000"
    by (simp_all add: capApplies_def endDatePassed_def examplePayment_def)
  then show ?thesis
    using single_update[of "[1 \<mapsto> ?p]" 1 ?p False 1738281600000 "fixedZone 0" 1738281600002
        "Some ''Invalid recipient address''"]
    by (auto simp add: examplePayment_def)
qed

text \<open>
  Claim C4. When \<open>max_executions\<close> is set (the planner stores null for zero, so a stored
  cap is not zero) and the execution count including this call's increment has reached
  it, the entry is completed and its next execution date is null, whatever its payment
  type: the cap is checked before the rules of the payment types.
\<close>

theorem max_executions_reached:
  assumes "db paymentId = Some p"
    and "max_executions p = Some m" and "m \<noteq> 0"
    and "(case execution_count p of None \<Rightarrow> 0 | Some c \<Rightarrow> c) + (if executed then 1 else 0) \<ge> m"
  shows "fst (updateAfterExecution tz now dateNow db paymentId executed errorMessage) = True \<and>
    (\<exists>p'. snd (updateAfterExecution tz now dateNow db paymentId executed errorMessage) paymentId = Some p'
       \<and> status p' = ''completed'' \<and> next_execution_date p' = None)"
  using assms
  by (simp add: updateAfterExecution_def Let_def split: option.splits jsdate.splits)


theorem max_executions_reached_witness:
  "\<exists>p'. snd (updateAfterExecution (fixedZone 0) 1738281600000 1738281600002
             [1 \<mapsto> examplePayment ''RECURRING'' (Some ''daily'') None None (Some 2) (Some 3)] 1 True
             None) 1 = Some p'
        \<and> status p' = ''completed''
        \<and> next_execution_date p' = None"
  using max_executions_reached[of
      "[1 \<mapsto> examplePayment ''RECURRING'' (Some ''daily'') None None (Some 2) (Some 3)]" 1
      "examplePayment ''RECURRING'' (Some ''daily'') None None (Some 2) (Some 3)" 3 True
      "fixedZone 0" 1738281600000 1738281600002 None]
  by (simp add: examplePayment_def)

text \<open>
  Claim C5. When the end date is set and \<open>now\<close> is after it, every update completes the
  entry and clears its next execution date, for every payment type and both outcomes of
  the execution.
\<close>

theorem end_date_passed:
  assumes "db paymentId = Some p"
    and "end_date p = Some (TimeValue e)" and "e < now"
  shows "fst (updateAfterExecution tz now dateNow db paymentId executed errorMessage) = True \<and>
    (\<exists>p'. snd (updateAfterExecution tz now dateNow db paymentId executed errorMessage) paymentId = Some p'
       \<and> status p' = ''completed'' \<and> next_execution_date p' = None)"
  using assms
  by (simp add: updateAfterExecution_def Let_def split: option.splits jsdate.splits prod.splits)


theorem end_date_passed_witness:
  "\<exists>p'. snd (updateAfterExecution (fixedZone 0) 1738281600000 1738281600002
             [1 \<mapsto> examplePayment ''SINGLE'' None (Some (TimeValue 1738195200000)) None (Some 0) None]
             1 False (Some ''Invalid amount'')) 1 = Some p'
        \<and> status p' = ''completed''
        \<and> next_execution_date p' = None"
  using end_date_passed[of
      "[1 \<mapsto> examplePayment ''SINGLE'' None (Some (TimeValue 1738195200000)) None (Some 0) None]" 1
      "examplePayment ''SINGLE'' None (Some (TimeValue 1738195200000)) None (Some 0) None"
      1738195200000 1738281600000 "fixedZone 0" 1738281600002 False "Some ''Invalid amount''"]
  by (simp add: examplePayment_def)

text \<open>
  Claim C9. The claim is that a failed update leaves the last execution date as it was.
  The \<^verbatim>\<open>UPDATE\<close> statement sets the column on every call, to \<open>now\<close> after a successful
  execution and to null after a failed one: here a recurring entry whose last execution
  was recorded loses that record when a retry fails.
\<close>

theorem failed_update_clears_last_execution_date:
  "last_execution_date
     (examplePayment ''RECURRING'' (Some ''daily'') None (Some 1738195200000) (Some 1) None)
     = Some 1738195200000
   \<and> map_option last_execution_date
        (snd (updateAfterExecution (fixedZone 0) 1738281600000 1738281600002
           [1 \<mapsto> examplePayment ''RECURRING'' (Some ''daily'') None (Some 1738195200000) (Some 1) None]
           1 False (Some ''Insufficient balance: Balance check failed''))
         1)
       = Some None"
  by (simp add: updateAfterExecution_def examplePayment_def Let_def)

section \<open>The recurrence arithmetic\<close>

text \<open>
  Claim C6, as stated, promises for \<^verbatim>\<open>monthly\<close> one calendar month with the day-of-month
  clamped to the length of the target month. The code adds one to the month field and
  lets the date run over: from 2025-01-31T00:00:00Z it yields 2025-03-03T00:00:00Z, where
  the clamped date is 2025-02-28T00:00:00Z.
\<close>

theorem monthly_is_not_clamped:
  "calculateNextExecutionDate (fixedZone 0) 0 ''monthly'' (Some 1738281600000) = 1740960000000
   \<and> specAddMonthClamped (fixedZone 0) 1738281600000 = 1740700800000
   \<and> calculateNextExecutionDate (fixedZone 0) 0 ''monthly'' (Some 1738281600000)
       \<noteq> specAddMonthClamped (fixedZone 0) 1738281600000"
  by code_simp

text \<open>
  Claim C6, amended. The frequency is compared in lower case. The result is the base moved
  forward in the local time of the host by \<open>k\<close> days: seven for \<^verbatim>\<open>weekly\<close>; the number of
  days of the base's local calendar month for \<^verbatim>\<open>monthly\<close>; the number of days of the
  base's year (base in January or February) or of the following year (base from March
  on) for \<^verbatim>\<open>yearly\<close>; one for \<^verbatim>\<open>daily\<close> and for every other frequency. That is the base plus
  \<open>k\<close> days of 86400000 ms when the zone's offset from UTC is the same at both ends (on a
  UTC host always); across a daylight-saving change it differs by the change. The
  \<^verbatim>\<open>monthly\<close> result is the clamped local date of the specification when the following month
  has the base's day-of-month, and otherwise lies after it by the days the following
  month is short of.
\<close>

theorem next_execution_date_period:
  "(let k = (if toLowerCase freq = ''weekly'' then 7
             else if toLowerCase freq = ''monthly''
               then daysInMonth (getFullYear tz base) (getMonth tz base)
             else if toLowerCase freq = ''yearly''
               then (if getMonth tz base < 2 then daysInYear (getFullYear tz base)
                     else daysInYear (getFullYear tz base + 1))
             else 1)
    in calculateNextExecutionDate tz clock freq (Some base)
         = utc tz (localTime tz base + k * msPerDay)
       \<and> (offsetAtLocal tz (localTime tz base + k * msPerDay) = offsetAtUTC tz base
            \<longrightarrow> calculateNextExecutionDate tz clock freq (Some base) = base + k * msPerDay))
   \<and> (toLowerCase freq = ''monthly'' \<longrightarrow>
        calculateNextExecutionDate tz clock freq (Some base) =
          utc tz (specAddMonthClampedLocal tz base
            + max 0 (getDate tz base
                     - daysInMonth (getFullYear tz base + (getMonth tz base + 1) div 12)
                         ((getMonth tz base + 1) mod 12)) * msPerDay))"
proof (intro conjI impI)
  show "let k = (if toLowerCase freq = ''weekly'' then 7
             else if toLowerCase freq = ''monthly''
               then daysInMonth (getFullYear tz base) (getMonth tz base)
             else if toLowerCase freq = ''yearly''
               then (if getMonth tz base < 2 then daysInYear (getFullYear tz base)
                     else daysInYear (getFullYear tz base + 1))
             else 1)
    in calculateNextExecutionDate tz clock freq (Some base)
         = utc tz (localTime tz base + k * msPerDay)
       \<and> (offsetAtLocal tz (localTime tz base + k * msPerDay) = offsetAtUTC tz base
            \<longrightarrow> calculateNextExecutionDate tz clock freq (Some base) = base + k * msPerDay)"
    unfolding Let_def calculate_period[of tz clock freq base]
    by (simp add: utc_same_offset)
next
  assume "toLowerCase freq = ''monthly''"
  then have "calculateNextExecutionDate tz clock freq (Some base)
      = setMonth tz base (getMonth tz base + 1)"
    by (simp add: calculateNextExecutionDate_def)
  then show "calculateNextExecutionDate tz clock freq (Some base) =
          utc tz (specAddMonthClampedLocal tz base
            + max 0 (getDate tz base
                     - daysInMonth (getFullYear tz base + (getMonth tz base + 1) div 12)
                         ((getMonth tz base + 1) mod 12)) * msPerDay)"
    by (simp only: setMonth_next_clamped)
qed

theorem next_execution_date_period_witness:
  "calculateNextExecutionDate (fixedZone 0) 0 ''Weekly'' (Some 1738281600000)
     = 1738281600000 + 7 * 86400000
   \<and> calculateNextExecutionDate (fixedZone 0) 0 ''monthly'' (Some 1738281600000)
     = 1738281600000 + 31 * 86400000
   \<and> calculateNextExecutionDate (fixedZone 0) 0 ''monthly'' (Some 1738281600000)
     = specAddMonthClamped (fixedZone 0) 1738281600000 + 3 * 86400000
   \<and> calculateNextExecutionDate (fixedZone 0) 0 ''hourly'' (Some 1738281600000)
     = 1738281600000 + 86400000
   \<and> calculateNextExecutionDate exampleZoneNewYork 0 ''daily'' (Some 1741435200000)
     = 1741435200000 + 23 * 3600000"
proof -
  have m: "getFullYear (fixedZone 0) 1738281600000 = 2025" "getMonth (fixedZone 0) 1738281600000 = 0"
    "getDate (fixedZone 0) 1738281600000 = 31"
    by code_simp+
  have d: "daysInMonth 2025 0 = 31" "daysInMonth 2025 1 = 28" by code_simp+
  have l: "toLowerCase ''Weekly'' = ''weekly''" "toLowerCase ''monthly'' = ''monthly''"
    "toLowerCase ''hourly'' = ''hourly''" "toLowerCase ''daily'' = ''daily''"
    by code_simp+
  have z: "utc (fixedZone 0) x = x" "localTime (fixedZone 0) x = x" for x
    by (simp_all add: utc_def localTime_def fixedZone_def)
  have c: "specAddMonthClamped (fixedZone 0) 1738281600000 = 1740700800000" by code_simp
  have n: "utc exampleZoneNewYork (localTime exampleZoneNewYork 1741435200000 + 86400000)
      = 1741518000000"
    by (simp add: utc_def localTime_def exampleZoneNewYork_def)
  show ?thesis
    using next_execution_date_period[of "''Weekly''" "fixedZone 0" 1738281600000 0]
      next_execution_date_period[of "''monthly''" "fixedZone 0" 1738281600000 0]
      next_execution_date_period[of "''hourly''" "fixedZone 0" 1738281600000 0]
      next_execution_date_period[of "''daily''" exampleZoneNewYork 1741435200000 0]
    by (simp add: m d l z c n msPerDay_def Let_def)
qed

section \<open>The condition evaluator\<close>

subsection \<open>The matcher against the grammar\<close>

lemma digit_not_space: "isDigit c \<Longrightarrow> \<not> isWhiteSpace c"
  by (auto simp: isDigit_def isWhiteSpace_def)

lemma operator_head:
  "op \<in> set operators \<Longrightarrow> \<exists>c r. op = c # r \<and> \<not> isWhiteSpace c"
  by (auto simp: operators_def isWhiteSpace_def)

lemma decimal_head: "isDecimal thr \<Longrightarrow> \<exists>c r. thr = c # r \<and> isDigit c"
  unfolding isDecimal_def by (cases thr) (auto simp: neq_Nil_conv)

lemma dropWhile_all: "\<forall>c \<in> set ws. P c \<Longrightarrow> dropWhile P (ws @ r) = dropWhile P r"
  by (induction ws) auto

lemma takeWhile_all: "\<forall>c \<in> set ws. P c \<Longrightarrow> takeWhile P (ws @ r) = ws @ takeWhile P r"
  by (induction ws) auto

lemma toLowerCase_length:
  assumes "toLowerCase b = ''balance''"
  shows "length b = 7"
proof -
  have "length (toLowerCase b) = length b" by (simp add: toLowerCase_def)
  then show ?thesis using assms by simp
qed

lemma matchOperator_Some:
  "matchOperator ops s = Some (op, thr) \<Longrightarrow>
     op \<in> set ops \<and> isPrefixOf op s \<and> matchThreshold (drop (length op) s) = Some thr"
  by (induction ops) (auto split: if_splits option.splits)

lemma matchOperator_None:
  "matchOperator ops s = None \<longleftrightarrow>
     (\<forall>op \<in> set ops. isPrefixOf op s \<longrightarrow> matchThreshold (drop (length op) s) = None)"
  by (induction ops) (auto split: option.splits)

lemma matchThreshold_sound:
  assumes "matchThreshold s = Some thr"
  shows "\<exists>ws post. s = ws @ thr @ post \<and> (\<forall>c \<in> set ws. isWhiteSpace c) \<and> isDecimal thr"
proof -
  define ws where "ws = takeWhile isWhiteSpace s"
  define r where "r = dropWhile isWhiteSpace s"
  define ds where "ds = takeWhile isDigit r"
  define r2 where "r2 = dropWhile isDigit r"
  have s: "s = ws @ r" by (simp add: ws_def r_def)
  have r: "r = ds @ r2" by (simp add: ds_def r2_def)
  have ws: "\<forall>c \<in> set ws. isWhiteSpace c" unfolding ws_def by (auto dest: set_takeWhileD)
  have dsd: "\<forall>c \<in> set ds. isDigit c" unfolding ds_def by (auto dest: set_takeWhileD)
  have m: "ds \<noteq> []" "thr = (case r2 of [] \<Rightarrow> ds
      | c # r3 \<Rightarrow> if c = CHR ''.'' then ds @ ''.'' @ takeWhile isDigit r3 else ds)"
    using assms unfolding matchThreshold_def Let_def r_def[symmetric] ds_def[symmetric] r2_def[symmetric]
    by (auto split: if_splits)
  show ?thesis
  proof (cases "\<exists>r3. r2 = CHR ''.'' # r3")
    case True
    then obtain r3 where r3: "r2 = CHR ''.'' # r3" by auto
    define fs where "fs = takeWhile isDigit r3"
    have fsd: "\<forall>c \<in> set fs. isDigit c" unfolding fs_def by (auto dest: set_takeWhileD)
    have t: "thr = ds @ ''.'' @ fs" using m r3 by (simp add: fs_def)
    have "r3 = fs @ dropWhile isDigit r3" by (simp add: fs_def)
    then have "s = ws @ thr @ dropWhile isDigit r3" using s r r3 t by simp
    moreover have "isDecimal thr" unfolding isDecimal_def using m(1) dsd fsd t by blast
    ultimately show ?thesis using ws by blast
  next
    case False
    then have t: "thr = ds" using m by (cases r2) auto
    then have "s = ws @ thr @ r2" using s r by simp
    moreover have "isDecimal thr" unfolding isDecimal_def using m(1) dsd t by blast
    ultimately show ?thesis using ws by blast
  qed
qed

lemma matchThreshold_complete:
  assumes "\<forall>c \<in> set ws. isWhiteSpace c" and "isDecimal thr"
  shows "matchThreshold (ws @ thr @ post) \<noteq> None"
proof -
  obtain c r where c: "thr = c # r" "isDigit c" using decimal_head[OF assms(2)] by auto
  have "dropWhile isWhiteSpace (ws @ thr @ post) = thr @ post"
    using c digit_not_space[of c] by (simp add: dropWhile_all[OF assms(1)])
  moreover have "takeWhile isDigit (thr @ post) \<noteq> []" using c by simp
  ultimately show ?thesis by (simp add: matchThreshold_def Let_def)
qed

lemma not_digit_dot: "\<not> isDigit CHR ''.''"
  by (simp add: isDigit_def)

lemma matchThreshold_exact:
  assumes "\<forall>c \<in> set ws. isWhiteSpace c" and "isDecimal thr"
  shows "matchThreshold (ws @ thr) = Some thr"
proof -
  obtain c r where c: "thr = c # r" "isDigit c" using decimal_head[OF assms(2)] by auto
  have d: "dropWhile isWhiteSpace (ws @ thr) = thr"
    using c digit_not_space[of c] by (simp add: dropWhile_all[OF assms(1)])
  obtain ds fs where t: "ds \<noteq> []" "\<forall>c \<in> set ds. isDigit c" "\<forall>c \<in> set fs. isDigit c"
    "thr = ds \<or> thr = ds @ ''.'' @ fs"
    using assms(2) unfolding isDecimal_def by blast
  from t(4) show ?thesis
  proof
    assume e: "thr = ds"
    have d': "dropWhile isWhiteSpace (ws @ ds) = ds" using d e by simp
    have a: "takeWhile isDigit ds = ds" "dropWhile isDigit ds = []" using t(2) by auto
    show ?thesis unfolding e matchThreshold_def Let_def d' a using t(1) by simp
  next
    assume e: "thr = ds @ ''.'' @ fs"
    have d': "dropWhile isWhiteSpace (ws @ ds @ ''.'' @ fs) = ds @ ''.'' @ fs" using d e by simp
    have a: "takeWhile isDigit (ds @ ''.'' @ fs) = ds"
      using takeWhile_all[OF t(2), of "''.'' @ fs"] not_digit_dot by simp
    have b: "dropWhile isDigit (ds @ ''.'' @ fs) = CHR ''.'' # fs"
      using dropWhile_all[OF t(2), of "''.'' @ fs"] not_digit_dot by simp
    have c: "takeWhile isDigit fs = fs" using t(3) by simp
    show ?thesis unfolding e matchThreshold_def Let_def d' a b using t(1) c by simp
  qed
qed


lemma take_drop_balance:
  assumes "toLowerCase b = ''balance''"
  shows "take 7 (b @ r) = b" "drop 7 (b @ r) = r"
  using toLowerCase_length[OF assms] by simp_all

lemma matchAt_sound:
  assumes "matchAt s = Some (op, thr)"
  shows "\<exists>m post. s = m @ post \<and> encodesPredicate m op thr"
proof -
  define b where "b = take 7 s"
  define ws1 where "ws1 = takeWhile isWhiteSpace (drop 7 s)"
  define r1 where "r1 = dropWhile isWhiteSpace (drop 7 s)"
  have b: "toLowerCase b = ''balance''" and m: "matchOperator operators r1 = Some (op, thr)"
    using assms unfolding matchAt_def b_def r1_def by (auto split: if_splits)
  have s: "s = b @ ws1 @ r1" unfolding b_def ws1_def r1_def by simp
  have ws1: "\<forall>c \<in> set ws1. isWhiteSpace c" unfolding ws1_def by (auto dest: set_takeWhileD)
  from matchOperator_Some[OF m] obtain r2 where
    op: "op \<in> set operators" and r1: "r1 = op @ r2" and
    t: "matchThreshold (drop (length op) r1) = Some thr"
    by (auto simp: isPrefixOf_iff)
  from t r1 have "matchThreshold r2 = Some thr" by simp
  from matchThreshold_sound[OF this] obtain ws2 post where
    r2: "r2 = ws2 @ thr @ post" and ws2: "\<forall>c \<in> set ws2. isWhiteSpace c" and d: "isDecimal thr"
    by blast
  have "s = (b @ ws1 @ op @ ws2 @ thr) @ post" using s r1 r2 by simp
  moreover have "encodesPredicate (b @ ws1 @ op @ ws2 @ thr) op thr"
    unfolding encodesPredicate_def using b ws1 ws2 op d by blast
  ultimately show ?thesis by blast
qed

lemma dropWhile_to_operator:
  assumes "\<forall>c \<in> set ws1. isWhiteSpace c" and "op \<in> set operators"
  shows "dropWhile isWhiteSpace (ws1 @ op @ r) = op @ r"
proof -
  obtain c r' where "op = c # r'" "\<not> isWhiteSpace c" using operator_head[OF assms(2)] by auto
  then show ?thesis by (simp add: dropWhile_all[OF assms(1)])
qed

lemma matchAt_complete:
  assumes "encodesPredicate m op thr"
  shows "matchAt (m @ post) \<noteq> None"
proof -
  obtain b ws1 ws2 where m: "m = b @ ws1 @ op @ ws2 @ thr" and b: "toLowerCase b = ''balance''"
    and ws1: "\<forall>c \<in> set ws1. isWhiteSpace c" and ws2: "\<forall>c \<in> set ws2. isWhiteSpace c"
    and op: "op \<in> set operators" and d: "isDecimal thr"
    using assms unfolding encodesPredicate_def by blast
  let ?r = "op @ ws2 @ thr @ post"
  have e: "m @ post = b @ ws1 @ ?r" using m by simp
  have "isPrefixOf op ?r" by (simp add: isPrefixOf_iff)
  moreover have "matchThreshold (drop (length op) ?r) \<noteq> None"
    using matchThreshold_complete[OF ws2 d] by simp
  ultimately have "matchOperator operators ?r \<noteq> None"
    using op by (auto simp: matchOperator_None)
  then show ?thesis
    unfolding e matchAt_def take_drop_balance[OF b] dropWhile_to_operator[OF ws1 op]
    using b by simp
qed

lemma matchOperator_exact:
  assumes "\<forall>c \<in> set ws2. isWhiteSpace c" and "isDecimal thr" and "op \<in> set operators"
  shows "matchOperator operators (op @ ws2 @ thr) = Some (op, thr)"
proof -
  have t: "matchThreshold (ws2 @ thr) = Some thr" by (rule matchThreshold_exact[OF assms(1,2)])
  obtain d r where d: "thr = d # r" "isDigit d" using decimal_head[OF assms(2)] by auto
  have "\<exists>c r'. ws2 @ thr = c # r' \<and> c \<noteq> CHR ''=''"
  proof (cases ws2)
    case Nil
    then show ?thesis using d by (auto simp: isDigit_def)
  next
    case (Cons a ws)
    then show ?thesis using assms(1) by (auto simp: isWhiteSpace_def)
  qed
  then obtain c r' where c: "ws2 @ thr = c # r'" "c \<noteq> CHR ''=''" by blast
  from assms(3) have "op = ''>='' \<or> op = ''>'' \<or> op = ''<='' \<or> op = ''<''"
    by (simp add: operators_def)
  then show ?thesis
    using t c by (elim disjE) (simp_all add: operators_def)
qed

lemma matchAt_exact:
  assumes "encodesPredicate s op thr"
  shows "matchAt s = Some (op, thr)"
proof -
  obtain b ws1 ws2 where s: "s = b @ ws1 @ op @ ws2 @ thr" and b: "toLowerCase b = ''balance''"
    and ws1: "\<forall>c \<in> set ws1. isWhiteSpace c" and ws2: "\<forall>c \<in> set ws2. isWhiteSpace c"
    and op: "op \<in> set operators" and d: "isDecimal thr"
    using assms unfolding encodesPredicate_def by blast
  show ?thesis
    unfolding s matchAt_def take_drop_balance[OF b] dropWhile_to_operator[OF ws1 op]
    using b matchOperator_exact[OF ws2 d op] by simp
qed

lemma balanceMatch_sound:
  "balanceMatch s = Some (op, thr) \<Longrightarrow> containsPredicate s op thr"
proof (induction s)
  case Nil
  then show ?case by simp
next
  case (Cons c cs)
  show ?case
  proof (cases "matchAt (c # cs)")
    case None
    then have "balanceMatch cs = Some (op, thr)" using Cons.prems by simp
    then obtain pre m post where "cs = pre @ m @ post" "encodesPredicate m op thr"
      using Cons.IH unfolding containsPredicate_def by blast
    then have "c # cs = (c # pre) @ m @ post \<and> encodesPredicate m op thr" by simp
    then show ?thesis unfolding containsPredicate_def by blast
  next
    case (Some a)
    then have "matchAt (c # cs) = Some (op, thr)" using Cons.prems by simp
    from matchAt_sound[OF this] obtain m post where
      "c # cs = [] @ m @ post" "encodesPredicate m op thr" by auto
    then show ?thesis unfolding containsPredicate_def by blast
  qed
qed

lemma balanceMatch_at: "matchAt s \<noteq> None \<Longrightarrow> balanceMatch s = matchAt s"
  by (cases s) (auto simp: matchAt_def toLowerCase_def)

lemma balanceMatch_skip: "matchAt r \<noteq> None \<Longrightarrow> balanceMatch (pre @ r) \<noteq> None"
proof (induction pre)
  case Nil
  then show ?case by (simp add: balanceMatch_at)
next
  case (Cons c pre)
  then show ?case by (auto split: option.splits)
qed

lemma balanceMatch_complete:
  assumes "containsPredicate s op thr"
  shows "balanceMatch s \<noteq> None"
proof -
  obtain pre m post where s: "s = pre @ m @ post" and m: "encodesPredicate m op thr"
    using assms unfolding containsPredicate_def by blast
  show ?thesis unfolding s by (rule balanceMatch_skip[OF matchAt_complete[OF m]])
qed

lemma balanceMatch_exact:
  assumes "encodesPredicate s op thr"
  shows "balanceMatch s = Some (op, thr)"
  using matchAt_exact[OF assms] balanceMatch_at[of s] by simp


lemma evaluateCondition_found:
  assumes "c \<noteq> []" and "getUserById userId = Returns (Some u)"
    and "wallet_address u = Some a" and "a \<noteq> []" and "getBalance a = Returns b"
  shows "evaluateCondition fl getUserById getBalance (Some c) userId =
     (case balanceMatch c of
        Some (op, thr) \<Rightarrow> applyOperator op (fl (of_int b / 10 ^ 18)) (fl (decimalValue thr))
      | None \<Rightarrow> False)"
  using assms by (simp add: evaluateCondition_def split: option.splits prod.splits)

lemma evaluateCondition_lookup:
  assumes "evaluateCondition fl getUserById getBalance cond userId"
  shows "\<exists>u a b. getUserById userId = Returns (Some u) \<and> wallet_address u = Some a \<and> a \<noteq> []
              \<and> getBalance a = Returns b"
proof (cases cond)
  case None
  then show ?thesis using assms by (simp add: evaluateCondition_def)
next
  case c: (Some c)
  show ?thesis
  proof (cases "c = []")
    case True
    then show ?thesis using assms c by (simp add: evaluateCondition_def)
  next
    case ne: False
    show ?thesis
    proof (cases "getUserById userId")
      case (Throws e)
      then show ?thesis using assms c ne by (simp add: evaluateCondition_def)
    next
      case r: (Returns uo)
      show ?thesis
      proof (cases uo)
        case None
        then show ?thesis using assms c ne r by (simp add: evaluateCondition_def)
      next
        case u: (Some u)
        show ?thesis
        proof (cases "wallet_address u")
          case None
          then show ?thesis using assms c ne r u by (simp add: evaluateCondition_def)
        next
          case a: (Some a)
          show ?thesis
          proof (cases "a = []")
            case True
            then show ?thesis using assms c ne r u a by (simp add: evaluateCondition_def)
          next
            case an: False
            show ?thesis
            proof (cases "getBalance a")
              case (Throws e)
              then show ?thesis using assms c ne r u a an by (simp add: evaluateCondition_def)
            next
              case (Returns b)
              then show ?thesis using r u a an by simp
            qed
          qed
        qed
      qed
    qed
  qed
qed

lemma matchThreshold_full_sound:
  assumes "matchThreshold s = Some thr"
  shows "\<exists>ws post. s = ws @ thr @ post \<and> (\<forall>c \<in> set ws. isWhiteSpace c) \<and> isDecimal thr
           \<and> fullThreshold thr post"
proof -
  define ws where "ws = takeWhile isWhiteSpace s"
  define r where "r = dropWhile isWhiteSpace s"
  define ds where "ds = takeWhile isDigit r"
  define r2 where "r2 = dropWhile isDigit r"
  have s: "s = ws @ r" by (simp add: ws_def r_def)
  have r: "r = ds @ r2" by (simp add: ds_def r2_def)
  have ws: "\<forall>c \<in> set ws. isWhiteSpace c" unfolding ws_def by (auto dest: set_takeWhileD)
  have dsd: "\<forall>c \<in> set ds. isDigit c" unfolding ds_def by (auto dest: set_takeWhileD)
  have r2h: "r2 = x # rest \<Longrightarrow> \<not> isDigit x" for x rest
    unfolding r2_def using hd_dropWhile[of isDigit r] by (metis list.sel(1) list.distinct(1))
  have m: "ds \<noteq> []" "thr = (case r2 of [] \<Rightarrow> ds
      | c # r3 \<Rightarrow> if c = CHR ''.'' then ds @ ''.'' @ takeWhile isDigit r3 else ds)"
    using assms unfolding matchThreshold_def Let_def r_def[symmetric] ds_def[symmetric] r2_def[symmetric]
    by (auto split: if_splits)
  show ?thesis
  proof (cases "\<exists>r3. r2 = CHR ''.'' # r3")
    case True
    then obtain r3 where r3: "r2 = CHR ''.'' # r3" by auto
    define fs where "fs = takeWhile isDigit r3"
    define post where "post = dropWhile isDigit r3"
    have fsd: "\<forall>c \<in> set fs. isDigit c" unfolding fs_def by (auto dest: set_takeWhileD)
    have t: "thr = ds @ ''.'' @ fs" using m r3 by (simp add: fs_def)
    have "r3 = fs @ post" by (simp add: fs_def post_def)
    then have e: "s = ws @ thr @ post" using s r r3 t by simp
    have d: "isDecimal thr" unfolding isDecimal_def using m(1) dsd fsd t by blast
    have "post = x # rest \<Longrightarrow> \<not> isDigit x" for x rest
      unfolding post_def using hd_dropWhile[of isDigit r3] by (metis list.sel(1) list.distinct(1))
    then have "fullThreshold thr post"
      unfolding fullThreshold_def using t by (cases post) auto
    then show ?thesis using e ws d by blast
  next
    case False
    then have t: "thr = ds" using m by (cases r2) auto
    then have e: "s = ws @ thr @ r2" using s r by simp
    have d: "isDecimal thr" unfolding isDecimal_def using m(1) dsd t by blast
    have "fullThreshold thr r2"
      unfolding fullThreshold_def using False r2h by (cases r2) auto
    then show ?thesis using e ws d by blast
  qed
qed

lemma takeWhile_stop:
  assumes "\<forall>c \<in> set xs. P c" and "case ys of [] \<Rightarrow> True | y # _ \<Rightarrow> \<not> P y"
  shows "takeWhile P (xs @ ys) = xs" "dropWhile P (xs @ ys) = ys"
  using assms by (induction xs) (auto split: list.splits)

lemma matchThreshold_steps:
  assumes "dropWhile isWhiteSpace s = r" and "takeWhile isDigit r = ds"
    and "dropWhile isDigit r = r2" and "ds \<noteq> []"
  shows "matchThreshold s = Some (case r2 of [] \<Rightarrow> ds
           | c # r3 \<Rightarrow> if c = CHR ''.'' then ds @ ''.'' @ takeWhile isDigit r3 else ds)"
  unfolding matchThreshold_def Let_def assms(1) assms(2) assms(3) using assms(4) by simp

lemma matchThreshold_full:
  assumes "\<forall>c \<in> set ws. isWhiteSpace c" and "isDecimal thr" and "fullThreshold thr post"
  shows "matchThreshold (ws @ thr @ post) = Some thr"
proof -
  obtain c r where c: "thr = c # r" "isDigit c" using decimal_head[OF assms(2)] by auto
  have d: "dropWhile isWhiteSpace (ws @ thr @ post) = thr @ post"
    using c digit_not_space[of c] by (simp add: dropWhile_all[OF assms(1)])
  have ph: "case post of [] \<Rightarrow> True | y # _ \<Rightarrow> \<not> isDigit y"
    using assms(3) by (auto simp: fullThreshold_def split: list.splits)
  obtain ds fs where t: "ds \<noteq> []" "\<forall>c \<in> set ds. isDigit c" "\<forall>c \<in> set fs. isDigit c"
    "thr = ds \<or> thr = ds @ ''.'' @ fs"
    using assms(2) unfolding isDecimal_def by blast
  from t(4) show ?thesis
  proof
    assume e: "thr = ds"
    have nd: "CHR ''.'' \<notin> set ds" using t(2) not_digit_dot by auto
    have a: "takeWhile isDigit (ds @ post) = ds" "dropWhile isDigit (ds @ post) = post"
      using takeWhile_stop[OF t(2) ph] by simp_all
    have "case post of [] \<Rightarrow> True | y # _ \<Rightarrow> y \<noteq> CHR ''.''"
      using assms(3) nd e by (auto simp: fullThreshold_def split: list.splits)
    then have c: "(case post of [] \<Rightarrow> ds
        | c # r3 \<Rightarrow> if c = CHR ''.'' then ds @ ''.'' @ takeWhile isDigit r3 else ds) = ds"
      by (cases post) auto
    have d': "dropWhile isWhiteSpace (ws @ ds @ post) = ds @ post" using d e by simp
    show ?thesis
      unfolding e using matchThreshold_steps[OF d' a t(1)] c by simp
  next
    assume e: "thr = ds @ ''.'' @ fs"
    have a: "takeWhile isDigit (ds @ ''.'' @ fs @ post) = ds"
      "dropWhile isDigit (ds @ ''.'' @ fs @ post) = CHR ''.'' # fs @ post"
      using takeWhile_stop[OF t(2), of "''.'' @ fs @ post"] not_digit_dot by simp_all
    have b: "takeWhile isDigit (fs @ post) = fs" using takeWhile_stop[OF t(3) ph] by simp
    have d': "dropWhile isWhiteSpace (ws @ (ds @ ''.'' @ fs) @ post) = ds @ ''.'' @ fs @ post"
      using d e by simp
    show ?thesis
      unfolding e using matchThreshold_steps[OF d' a t(1)] b by simp
  qed
qed

lemma matchOperator_full:
  assumes "\<forall>c \<in> set ws2. isWhiteSpace c" and "isDecimal thr" and "op \<in> set operators"
    and "fullThreshold thr post"
  shows "matchOperator operators (op @ ws2 @ thr @ post) = Some (op, thr)"
proof -
  have t: "matchThreshold (ws2 @ thr @ post) = Some thr"
    by (rule matchThreshold_full[OF assms(1,2,4)])
  obtain d r where d: "thr = d # r" "isDigit d" using decimal_head[OF assms(2)] by auto
  have "\<exists>c r'. ws2 @ thr @ post = c # r' \<and> c \<noteq> CHR ''=''"
  proof (cases ws2)
    case Nil
    then show ?thesis using d by (auto simp: isDigit_def)
  next
    case (Cons a ws)
    then show ?thesis using assms(1) by (auto simp: isWhiteSpace_def)
  qed
  then obtain c r' where c: "ws2 @ thr @ post = c # r'" "c \<noteq> CHR ''=''" by blast
  from assms(3) have "op = ''>='' \<or> op = ''>'' \<or> op = ''<='' \<or> op = ''<''"
    by (simp add: operators_def)
  then show ?thesis
    using t c by (elim disjE) (simp_all add: operators_def)
qed

lemma matchAt_full:
  assumes "encodesPredicate m op thr" and "fullThreshold thr post"
  shows "matchAt (m @ post) = Some (op, thr)"
proof -
  obtain b ws1 ws2 where m: "m = b @ ws1 @ op @ ws2 @ thr" and b: "toLowerCase b = ''balance''"
    and ws1: "\<forall>c \<in> set ws1. isWhiteSpace c" and ws2: "\<forall>c \<in> set ws2. isWhiteSpace c"
    and op: "op \<in> set operators" and d: "isDecimal thr"
    using assms(1) unfolding encodesPredicate_def by blast
  have e: "m @ post = b @ ws1 @ op @ ws2 @ thr @ post" using m by simp
  show ?thesis
    unfolding e matchAt_def take_drop_balance[OF b] dropWhile_to_operator[OF ws1 op]
    using b matchOperator_full[OF ws2 d op assms(2)] by simp
qed

lemma matchAt_full_sound:
  assumes "matchAt s = Some (op, thr)"
  shows "\<exists>m post. s = m @ post \<and> encodesPredicate m op thr \<and> fullThreshold thr post"
proof -
  define b where "b = take 7 s"
  define ws1 where "ws1 = takeWhile isWhiteSpace (drop 7 s)"
  define r1 where "r1 = dropWhile isWhiteSpace (drop 7 s)"
  have b: "toLowerCase b = ''balance''" and m: "matchOperator operators r1 = Some (op, thr)"
    using assms unfolding matchAt_def b_def r1_def by (auto split: if_splits)
  have s: "s = b @ ws1 @ r1" unfolding b_def ws1_def r1_def by simp
  have ws1: "\<forall>c \<in> set ws1. isWhiteSpace c" unfolding ws1_def by (auto dest: set_takeWhileD)
  from matchOperator_Some[OF m] obtain r2 where
    op: "op \<in> set operators" and r1: "r1 = op @ r2" and
    t: "matchThreshold (drop (length op) r1) = Some thr"
    by (auto simp: isPrefixOf_iff)
  from t r1 have "matchThreshold r2 = Some thr" by simp
  from matchThreshold_full_sound[OF this] obtain ws2 post where
    r2: "r2 = ws2 @ thr @ post" and ws2: "\<forall>c \<in> set ws2. isWhiteSpace c" and d: "isDecimal thr"
    and f: "fullThreshold thr post"
    by blast
  have "s = (b @ ws1 @ op @ ws2 @ thr) @ post" using s r1 r2 by simp
  moreover have "encodesPredicate (b @ ws1 @ op @ ws2 @ thr) op thr"
    unfolding encodesPredicate_def using b ws1 ws2 op d by blast
  ultimately show ?thesis using f by blast
qed

lemma matchAt_None_iff: "matchAt s = None \<longleftrightarrow> \<not> startsWithPredicate s"
proof
  assume n: "matchAt s = None"
  show "\<not> startsWithPredicate s"
  proof
    assume "startsWithPredicate s"
    then obtain m post op thr where "s = m @ post" "encodesPredicate m op thr"
      unfolding startsWithPredicate_def by blast
    then show False using matchAt_complete[of m op thr post] n by simp
  qed
next
  assume n: "\<not> startsWithPredicate s"
  show "matchAt s = None"
  proof (cases "matchAt s")
    case None
    then show ?thesis .
  next
    case (Some x)
    obtain op thr where "x = (op, thr)" by (cases x)
    then have "startsWithPredicate s"
      using matchAt_sound[of s op thr] Some unfolding startsWithPredicate_def by blast
    then show ?thesis using n by simp
  qed
qed

lemma balanceMatch_skip_all:
  assumes "\<forall>p1 p2. pre = p1 @ p2 \<and> p2 \<noteq> [] \<longrightarrow> matchAt (p2 @ r) = None"
  shows "balanceMatch (pre @ r) = balanceMatch r"
  using assms
proof (induction pre)
  case Nil
  then show ?case by simp
next
  case (Cons a pre)
  have "matchAt ((a # pre) @ r) = None" using Cons.prems by blast
  moreover have "\<forall>p1 p2. pre = p1 @ p2 \<and> p2 \<noteq> [] \<longrightarrow> matchAt (p2 @ r) = None"
  proof (intro allI impI)
    fix p1 p2
    assume "pre = p1 @ p2 \<and> p2 \<noteq> []"
    then have "a # pre = (a # p1) @ p2 \<and> p2 \<noteq> []" by simp
    then show "matchAt (p2 @ r) = None" using Cons.prems by blast
  qed
  ultimately show ?case using Cons.IH by simp
qed

lemma balanceMatch_leftmost:
  "balanceMatch s = Some (op, thr) \<longleftrightarrow> leftmostPredicate s op thr"
proof
  assume "leftmostPredicate s op thr"
  then obtain pre m post where s: "s = pre @ m @ post" and e: "encodesPredicate m op thr"
    and f: "fullThreshold thr post"
    and l: "\<forall>p1 p2. pre = p1 @ p2 \<and> p2 \<noteq> [] \<longrightarrow> \<not> startsWithPredicate (p2 @ m @ post)"
    unfolding leftmostPredicate_def by blast
  have "balanceMatch (pre @ m @ post) = balanceMatch (m @ post)"
    using l by (intro balanceMatch_skip_all) (simp add: matchAt_None_iff)
  also have "\<dots> = Some (op, thr)"
    using matchAt_full[OF e f] balanceMatch_at[of "m @ post"] by simp
  finally show "balanceMatch s = Some (op, thr)" using s by simp
next
  show "balanceMatch s = Some (op, thr) \<Longrightarrow> leftmostPredicate s op thr"
  proof (induction s)
    case Nil
    then show ?case by simp
  next
    case (Cons a cs)
    show ?case
    proof (cases "matchAt (a # cs)")
      case (Some x)
      then have "matchAt (a # cs) = Some (op, thr)" using Cons.prems by simp
      from matchAt_full_sound[OF this] obtain m post where
        "a # cs = [] @ m @ post" "encodesPredicate m op thr" "fullThreshold thr post" by auto
      then show ?thesis unfolding leftmostPredicate_def by blast
    next
      case None
      then have "balanceMatch cs = Some (op, thr)" using Cons.prems by simp
      then obtain pre m post where s: "cs = pre @ m @ post" and e: "encodesPredicate m op thr"
        and f: "fullThreshold thr post"
        and l: "\<forall>p1 p2. pre = p1 @ p2 \<and> p2 \<noteq> [] \<longrightarrow> \<not> startsWithPredicate (p2 @ m @ post)"
        using Cons.IH unfolding leftmostPredicate_def by blast
      have "\<not> startsWithPredicate (p2 @ m @ post)" if "a # pre = p1 @ p2 \<and> p2 \<noteq> []" for p1 p2
      proof (cases p1)
        case Nil
        then have "p2 @ m @ post = a # cs" using that s by simp
        then show ?thesis using None by (simp add: matchAt_None_iff)
      next
        case (Cons a' p1')
        then have "pre = p1' @ p2 \<and> p2 \<noteq> []" using that by simp
        then show ?thesis using l by blast
      qed
      moreover have "a # cs = (a # pre) @ m @ post" using s by simp
      ultimately show ?thesis unfolding leftmostPredicate_def using e f by blast
    qed
  qed
qed

lemma leftmost_exists:
  assumes "containsPredicate s op thr"
  shows "\<exists>op' thr'. leftmostPredicate s op' thr'"
proof -
  obtain x where "balanceMatch s = Some x" using balanceMatch_complete[OF assms] by auto
  then show ?thesis using balanceMatch_leftmost[of s "fst x" "snd x"] by auto
qed

lemma leftmost_exact:
  assumes "encodesPredicate s op thr"
  shows "leftmostPredicate s op thr"
  using balanceMatch_exact[OF assms] by (simp add: balanceMatch_leftmost)

lemma digit_index:
  assumes "(n::nat) < 10"
  shows "isDigit (''0123456789'' ! n)" "digitValue (''0123456789'' ! n) = n"
proof -
  have "\<forall>k<10. isDigit (''0123456789'' ! k) \<and> digitValue (''0123456789'' ! k) = k"
    by (simp add: eval_nat_numeral All_less_Suc isDigit_def digitValue_def)
  then show "isDigit (''0123456789'' ! n)" "digitValue (''0123456789'' ! n) = n"
    using assms by simp_all
qed

lemma showNat_digits: "\<forall>c \<in> set (showNat n). isDigit c"
proof (induction n rule: showNat.induct)
  case (1 n)
  show ?case
  proof (cases "n < 10")
    case True
    then show ?thesis using digit_index(1)[of n] by (simp add: showNat.simps[of n])
  next
    case False
    then show ?thesis
      using 1 digit_index(1)[of "n mod 10"] by (simp add: showNat.simps[of n])
  qed
qed

lemma digitsValue_snoc: "digitsValue (ds @ [d]) = 10 * digitsValue ds + digitValue d"
  by (simp add: digitsValue_def)

lemma digitsValue_showNat: "digitsValue (showNat n) = n"
proof (induction n rule: showNat.induct)
  case (1 n)
  show ?case
  proof (cases "n < 10")
    case True
    then show ?thesis
      using digit_index(2)[of n] by (simp add: showNat.simps[of n] digitsValue_def)
  next
    case False
    then have "digitsValue (showNat n) = 10 * (n div 10) + n mod 10"
      using 1 digit_index(2)[of "n mod 10"]
      by (simp add: showNat.simps[of n] digitsValue_snoc)
    then show ?thesis by simp
  qed
qed

lemma decimalValue_digits:
  assumes "\<forall>c \<in> set ds. isDigit c"
  shows "decimalValue ds = of_nat (digitsValue ds)"
proof -
  have a: "takeWhile isDigit ds = ds" and b: "dropWhile isDigit ds = []" using assms by auto
  show ?thesis unfolding decimalValue_def Let_def a b by (simp add: digitsValue_def)
qed

lemma decimalValue_showNat: "decimalValue (showNat n) = of_nat n"
  using decimalValue_digits[OF showNat_digits[of n]] by (simp add: digitsValue_showNat)

lemma decimalValue_leading_zero:
  assumes "\<forall>c \<in> set ds. isDigit c"
  shows "decimalValue (CHR ''0'' # ds) = decimalValue ds"
proof -
  have "\<forall>c \<in> set (CHR ''0'' # ds). isDigit c" using assms by (simp add: isDigit_def)
  then have "decimalValue (CHR ''0'' # ds) = of_nat (digitsValue (CHR ''0'' # ds))"
    by (rule decimalValue_digits)
  also have "digitsValue (CHR ''0'' # ds) = digitsValue ds"
    by (simp add: digitsValue_def digitValue_def)
  finally show ?thesis using decimalValue_digits[OF assms] by simp
qed

lemma decimalValue_fraction:
  assumes "\<forall>c \<in> set ds. isDigit c" and "\<forall>c \<in> set fs. isDigit c"
  shows "decimalValue (ds @ ''.'' @ fs) = decimalValue ds + decimalValue fs / 10 ^ length fs"
proof -
  have a: "takeWhile isDigit (ds @ ''.'' @ fs) = ds"
    using takeWhile_all[OF assms(1), of "''.'' @ fs"] not_digit_dot by simp
  have b: "dropWhile isDigit (ds @ ''.'' @ fs) = CHR ''.'' # fs"
    using dropWhile_all[OF assms(1), of "''.'' @ fs"] not_digit_dot by simp
  have c: "takeWhile isDigit fs = fs" using assms(2) by simp
  have "decimalValue (ds @ ''.'' @ fs)
      = of_nat (digitsValue ds) + of_nat (digitsValue fs) / 10 ^ length fs"
    unfolding decimalValue_def Let_def a b by (simp add: c)
  then show ?thesis
    using decimalValue_digits[OF assms(1)] decimalValue_digits[OF assms(2)] by simp
qed

lemma evaluateCondition_matched:
  assumes "balanceMatch c = Some (op, thr)" and "getUserById userId = Returns (Some u)"
    and "wallet_address u = Some a" and "a \<noteq> []" and "getBalance a = Returns b"
  shows "(op = ''>='' \<or> op = ''>'' \<or> op = ''<='' \<or> op = ''<'')
     \<and> evaluateCondition fl getUserById getBalance (Some c) userId =
        (if op = ''>='' then fl (of_int b / 10 ^ 18) \<ge> fl (decimalValue thr)
         else if op = ''>'' then fl (of_int b / 10 ^ 18) > fl (decimalValue thr)
         else if op = ''<='' then fl (of_int b / 10 ^ 18) \<le> fl (decimalValue thr)
         else fl (of_int b / 10 ^ 18) < fl (decimalValue thr))"
proof -
  have "c \<noteq> []" using assms(1) by auto
  then have e: "evaluateCondition fl getUserById getBalance (Some c) userId
      = applyOperator op (fl (of_int b / 10 ^ 18)) (fl (decimalValue thr))"
    using assms by (simp add: evaluateCondition_found)
  have "containsPredicate c op thr" using balanceMatch_sound[OF assms(1)] .
  then have "op \<in> set operators"
    unfolding containsPredicate_def encodesPredicate_def by blast
  then have o: "op = ''>='' \<or> op = ''>'' \<or> op = ''<='' \<or> op = ''<''"
    by (simp add: operators_def)
  show ?thesis using o e by (auto simp: applyOperator_def)
qed


subsection \<open>The evaluator\<close>

text \<open>
  Claim C8, as stated, has the result be the comparison of a predicate the string
  contains. A string can contain several: only the first one the pattern meets is
  evaluated. With a balance of 10, the condition \<^verbatim>\<open>balance >= 1 and balance >= 100\<close> contains
  the predicate \<^verbatim>\<open>balance >= 100\<close>, which is false of the balance, and evaluates to true.
\<close>

theorem later_predicate_is_ignored:
  "containsPredicate ''balance >= 1 and balance >= 100'' ''>='' ''100''
   \<and> decimalValue ''100'' = 100
   \<and> (of_int 10000000000000000000 / 10 ^ 18 :: rat) < 100
   \<and> evaluateCondition (\<lambda>x. x) exampleUsers (\<lambda>a. Returns 10000000000000000000)
        (Some ''balance >= 1 and balance >= 100'') 1"
proof -
  have d: "isDecimal ''100''"
    unfolding isDecimal_def by (rule exI[of _ "''100''"], rule exI[of _ "[]"]) (simp add: isDigit_def)
  have "''balance >= 100'' = ''balance'' @ '' '' @ ''>='' @ '' '' @ ''100''
        \<and> toLowerCase ''balance'' = ''balance''
        \<and> (\<forall>c \<in> set '' ''. isWhiteSpace c) \<and> (\<forall>c \<in> set '' ''. isWhiteSpace c)
        \<and> ''>='' \<in> set operators \<and> isDecimal ''100''"
    using d by (simp add: toLowerCase_def toLowerChar_def isWhiteSpace_def operators_def)
  then have e: "encodesPredicate ''balance >= 100'' ''>='' ''100''"
    unfolding encodesPredicate_def by blast
  have "''balance >= 1 and balance >= 100'' = ''balance >= 1 and '' @ ''balance >= 100'' @ []"
    by simp
  then have c: "containsPredicate ''balance >= 1 and balance >= 100'' ''>='' ''100''"
    unfolding containsPredicate_def using e by blast
  have v: "decimalValue ''100'' = 100" "decimalValue ''1'' = 1"
    by (simp_all add: decimalValue_def digitsValue_def digitValue_def isDigit_def)
  have m: "balanceMatch ''balance >= 1 and balance >= 100'' = Some (''>='', ''1'')"
    by (simp add: matchAt_def toLowerCase_def toLowerChar_def isWhiteSpace_def operators_def
        matchThreshold_def isDigit_def)
  have u: "exampleUsers 1 = Returns (Some \<lparr>wallet_address = Some ''0x00000000000000000000000000000000000000a0''\<rparr>)"
    by (simp add: exampleUsers_def)
  have "evaluateCondition (\<lambda>x. x) exampleUsers (\<lambda>a. Returns 10000000000000000000)
        (Some ''balance >= 1 and balance >= 100'') 1"
    using evaluateCondition_matched[where c = "''balance >= 1 and balance >= 100''"
        and op = "''>=''" and thr = "''1''" and getUserById = exampleUsers and userId = 1
        and u = "\<lparr>wallet_address = Some ''0x00000000000000000000000000000000000000a0''\<rparr>"
        and a = "''0x00000000000000000000000000000000000000a0''"
        and getBalance = "\<lambda>a. Returns 10000000000000000000" and b = 10000000000000000000
        and fl = "\<lambda>x. x"] m u v
    by simp
  then show ?thesis using c v by simp
qed

text \<open>
  Claim C8, amended. The evaluator returns false for a null or empty condition, whenever
  the owner, the owner's wallet address or the balance cannot be obtained (including a
  thrown database or network error), and for every condition string that contains no
  predicate of the grammar. A string that contains a predicate has a leftmost one, and a
  string that is exactly one predicate is its own leftmost one. When the balance was
  fetched, the result is the comparison of the balance in whole units (wei divided by
  \<open>10 ^ 18\<close>) with the threshold of the leftmost predicate, by that predicate's
  operator: at least for \<^verbatim>\<open>>=\<close>, greater for \<^verbatim>\<open>>\<close>, at most for \<^verbatim>\<open><=\<close>, less for \<^verbatim>\<open><\<close>, both
  sides rounded to JavaScript numbers by \<open>fl\<close>. The threshold is read in base ten: a
  numeral without a point has its value as a natural number, leading zeros change
  nothing, and digits after a point count as that many decimal places.
\<close>

theorem condition_evaluator:
  "(cond = None \<or> cond = Some [] \<longrightarrow> \<not> evaluateCondition fl getUserById getBalance cond userId)
   \<and> (\<not> (\<exists>u a b. getUserById userId = Returns (Some u) \<and> wallet_address u = Some a \<and> a \<noteq> []
              \<and> getBalance a = Returns b)
        \<longrightarrow> \<not> evaluateCondition fl getUserById getBalance cond userId)
   \<and> (cond = Some c \<and> (\<forall>op thr. \<not> containsPredicate c op thr)
        \<longrightarrow> \<not> evaluateCondition fl getUserById getBalance cond userId)
   \<and> (containsPredicate c op' thr' \<longrightarrow> (\<exists>op thr. leftmostPredicate c op thr))
   \<and> (encodesPredicate c op' thr' \<longrightarrow> leftmostPredicate c op' thr')
   \<and> (cond = Some c \<and> leftmostPredicate c op thr
        \<and> getUserById userId = Returns (Some u) \<and> wallet_address u = Some a \<and> a \<noteq> []
        \<and> getBalance a = Returns b
        \<longrightarrow> (op = ''>='' \<or> op = ''>'' \<or> op = ''<='' \<or> op = ''<'')
            \<and> evaluateCondition fl getUserById getBalance cond userId
              = (if op = ''>='' then fl (of_int b / 10 ^ 18) \<ge> fl (decimalValue thr)
                 else if op = ''>'' then fl (of_int b / 10 ^ 18) > fl (decimalValue thr)
                 else if op = ''<='' then fl (of_int b / 10 ^ 18) \<le> fl (decimalValue thr)
                 else fl (of_int b / 10 ^ 18) < fl (decimalValue thr)))
   \<and> decimalValue [] = 0
   \<and> decimalValue (showNat n) = of_nat n
   \<and> ((\<forall>x \<in> set ds. isDigit x) \<and> (\<forall>x \<in> set fs. isDigit x)
        \<longrightarrow> decimalValue (CHR ''0'' # ds) = decimalValue ds
            \<and> decimalValue (ds @ ''.'' @ fs) = decimalValue ds + decimalValue fs / 10 ^ length fs)"
proof (intro conjI impI)
  assume "cond = None \<or> cond = Some []"
  then show "\<not> evaluateCondition fl getUserById getBalance cond userId"
    by (auto simp: evaluateCondition_def)
next
  assume "\<not> (\<exists>u a b. getUserById userId = Returns (Some u) \<and> wallet_address u = Some a \<and> a \<noteq> []
              \<and> getBalance a = Returns b)"
  then show "\<not> evaluateCondition fl getUserById getBalance cond userId"
    using evaluateCondition_lookup[of fl getUserById getBalance cond userId] by blast
next
  assume "cond = Some c \<and> (\<forall>op thr. \<not> containsPredicate c op thr)"
  then have c: "cond = Some c" and n: "balanceMatch c = None"
    using balanceMatch_sound[of c] by (cases "balanceMatch c"; auto)+
  show "\<not> evaluateCondition fl getUserById getBalance cond userId"
  proof
    assume e: "evaluateCondition fl getUserById getBalance cond userId"
    then have "c \<noteq> []" using c by (auto simp: evaluateCondition_def)
    moreover obtain u a b where "getUserById userId = Returns (Some u)" "wallet_address u = Some a"
      "a \<noteq> []" "getBalance a = Returns b"
      using evaluateCondition_lookup[OF e] by blast
    ultimately show False using e c n by (simp add: evaluateCondition_found)
  qed
next
  assume "containsPredicate c op' thr'"
  then show "\<exists>op thr. leftmostPredicate c op thr" by (rule leftmost_exists)
next
  assume "encodesPredicate c op' thr'"
  then show "leftmostPredicate c op' thr'" by (rule leftmost_exact)
next
  assume h: "cond = Some c \<and> leftmostPredicate c op thr
        \<and> getUserById userId = Returns (Some u) \<and> wallet_address u = Some a \<and> a \<noteq> []
        \<and> getBalance a = Returns b"
  then have m: "balanceMatch c = Some (op, thr)" by (simp add: balanceMatch_leftmost)
  from h have l: "getUserById userId = Returns (Some u)" "wallet_address u = Some a" "a \<noteq> []"
    "getBalance a = Returns b" by simp_all
  note t = evaluateCondition_matched[where fl = fl and getUserById = getUserById
      and userId = userId and getBalance = getBalance, OF m l]
  from t show "op = ''>='' \<or> op = ''>'' \<or> op = ''<='' \<or> op = ''<''" by (rule conjunct1)
  from t h show "evaluateCondition fl getUserById getBalance cond userId
              = (if op = ''>='' then fl (of_int b / 10 ^ 18) \<ge> fl (decimalValue thr)
                 else if op = ''>'' then fl (of_int b / 10 ^ 18) > fl (decimalValue thr)
                 else if op = ''<='' then fl (of_int b / 10 ^ 18) \<le> fl (decimalValue thr)
                 else fl (of_int b / 10 ^ 18) < fl (decimalValue thr))"
    by simp
next
  show "decimalValue [] = 0" by (simp add: decimalValue_def digitsValue_def)
next
  show "decimalValue (showNat n) = of_nat n" by (rule decimalValue_showNat)
next
  assume "(\<forall>x \<in> set ds. isDigit x) \<and> (\<forall>x \<in> set fs. isDigit x)"
  then show "decimalValue (CHR ''0'' # ds) = decimalValue ds"
    by (simp add: decimalValue_leading_zero)
next
  assume "(\<forall>x \<in> set ds. isDigit x) \<and> (\<forall>x \<in> set fs. isDigit x)"
  then show "decimalValue (ds @ ''.'' @ fs) = decimalValue ds + decimalValue fs / 10 ^ length fs"
    using decimalValue_fraction[of ds fs] by simp
qed

theorem condition_evaluator_witness:
  "leftmostPredicate ''when balance > 2.5 USDC'' ''>'' ''2.5''
   \<and> decimalValue ''2.5'' = 5 / 2
   \<and> evaluateCondition (\<lambda>x. x) exampleUsers (\<lambda>a. Returns 3000000000000000000)
         (Some ''when balance > 2.5 USDC'') 1
   \<and> \<not> evaluateCondition (\<lambda>x. x) exampleUsers (\<lambda>a. Returns 2500000000000000000)
         (Some ''when balance > 2.5 USDC'') 1
   \<and> leftmostPredicate ''balance >= 10'' ''>='' ''10''
   \<and> decimalValue ''10'' = 10
   \<and> evaluateCondition (\<lambda>x. x) exampleUsers (\<lambda>a. Returns 10000000000000000000)
         (Some ''balance >= 10'') 1
   \<and> \<not> evaluateCondition (\<lambda>x. x) exampleUsers (\<lambda>a. Returns 5000000000000000000)
         (Some ''balance >= 10'') 1
   \<and> \<not> evaluateCondition (\<lambda>x. x) exampleUsers (\<lambda>a. Returns 10000000000000000000)
         (Some ''balance >= 10'') 2
   \<and> \<not> evaluateCondition (\<lambda>x. x) exampleUsers (\<lambda>a. Throws ''network error'')
         (Some ''balance >= 10'') 1
   \<and> \<not> evaluateCondition (\<lambda>x. x) exampleUsers (\<lambda>a. Returns 10000000000000000000)
         (Some ''balance is at least 10'') 1"
proof -
  have d: "isDecimal ''10''"
    unfolding isDecimal_def by (rule exI[of _ "''10''"], rule exI[of _ "[]"]) (simp add: isDigit_def)
  have "''balance >= 10'' = ''balance'' @ '' '' @ ''>='' @ '' '' @ ''10''
        \<and> toLowerCase ''balance'' = ''balance''
        \<and> (\<forall>c \<in> set '' ''. isWhiteSpace c) \<and> (\<forall>c \<in> set '' ''. isWhiteSpace c)
        \<and> ''>='' \<in> set operators \<and> isDecimal ''10''"
    using d by (simp add: toLowerCase_def toLowerChar_def isWhiteSpace_def operators_def)
  then have e: "encodesPredicate ''balance >= 10'' ''>='' ''10''"
    unfolding encodesPredicate_def by blast
  have l1: "leftmostPredicate ''balance >= 10'' ''>='' ''10''"
    using condition_evaluator[where c = "''balance >= 10''" and op' = "''>=''" and thr' = "''10''"] e
    by blast
  have "balanceMatch ''when balance > 2.5 USDC'' = Some (''>'', ''2.5'')"
    by (simp add: matchAt_def toLowerCase_def toLowerChar_def isWhiteSpace_def operators_def
        matchThreshold_def isDigit_def)
  then have l2: "leftmostPredicate ''when balance > 2.5 USDC'' ''>'' ''2.5''"
    by (simp only: balanceMatch_leftmost)
  have "balanceMatch ''balance is at least 10'' = None"
    by (simp add: matchAt_def toLowerCase_def toLowerChar_def isWhiteSpace_def operators_def
        matchThreshold_def isDigit_def)
  then have n3: "\<forall>op thr. \<not> containsPredicate ''balance is at least 10'' op thr"
    using balanceMatch_complete by fastforce
  have s: "showNat 2 = ''2''" "showNat 5 = ''5''" "showNat 10 = ''10''"
    by (simp_all add: showNat.simps)
  have g: "(\<forall>x \<in> set ''2''. isDigit x) \<and> (\<forall>x \<in> set ''5''. isDigit x)"
    by (simp add: isDigit_def)
  have v: "decimalValue ''10'' = 10" "decimalValue ''2.5'' = 5 / 2"
    using condition_evaluator[where n = 10] condition_evaluator[where n = 2]
      condition_evaluator[where n = 5] condition_evaluator[where ds = "''2''" and fs = "''5''"] s g
    by simp_all
  have u: "exampleUsers 1 = Returns (Some \<lparr>wallet_address = Some ''0x00000000000000000000000000000000000000a0''\<rparr>)"
    by (simp add: exampleUsers_def)
  have n2: "\<not> (\<exists>u a b. exampleUsers 2 = Returns (Some u) \<and> wallet_address u = Some a \<and> a \<noteq> []
              \<and> (\<lambda>a. Returns (10000000000000000000::int)) a = Returns b)"
    by (auto simp: exampleUsers_def)
  have n4: "\<not> (\<exists>u a b. exampleUsers 1 = Returns (Some u) \<and> wallet_address u = Some a \<and> a \<noteq> []
              \<and> (\<lambda>a. (Throws ''network error'' :: int attempt)) a = Returns b)"
    by simp
  note t = condition_evaluator[where fl = "\<lambda>x. x" and getUserById = exampleUsers
      and u = "\<lparr>wallet_address = Some ''0x00000000000000000000000000000000000000a0''\<rparr>"
      and a = "''0x00000000000000000000000000000000000000a0''"]
  have r1: "evaluateCondition (\<lambda>x. x) exampleUsers (\<lambda>a. Returns 3000000000000000000)
         (Some ''when balance > 2.5 USDC'') 1"
    using t[where cond = "Some ''when balance > 2.5 USDC''" and c = "''when balance > 2.5 USDC''"
        and op = "''>''" and thr = "''2.5''" and userId = 1
        and getBalance = "\<lambda>a. Returns 3000000000000000000" and b = 3000000000000000000]
      l2 u v by simp
  have r2: "\<not> evaluateCondition (\<lambda>x. x) exampleUsers (\<lambda>a. Returns 2500000000000000000)
         (Some ''when balance > 2.5 USDC'') 1"
    using t[where cond = "Some ''when balance > 2.5 USDC''" and c = "''when balance > 2.5 USDC''"
        and op = "''>''" and thr = "''2.5''" and userId = 1
        and getBalance = "\<lambda>a. Returns 2500000000000000000" and b = 2500000000000000000]
      l2 u v by simp
  have r3: "evaluateCondition (\<lambda>x. x) exampleUsers (\<lambda>a. Returns 10000000000000000000)
         (Some ''balance >= 10'') 1"
    using t[where cond = "Some ''balance >= 10''" and c = "''balance >= 10''"
        and op = "''>=''" and thr = "''10''" and userId = 1
        and getBalance = "\<lambda>a. Returns 10000000000000000000" and b = 10000000000000000000]
      l1 u v by simp
  have r4: "\<not> evaluateCondition (\<lambda>x. x) exampleUsers (\<lambda>a. Returns 5000000000000000000)
         (Some ''balance >= 10'') 1"
    using t[where cond = "Some ''balance >= 10''" and c = "''balance >= 10''"
        and op = "''>=''" and thr = "''10''" and userId = 1
        and getBalance = "\<lambda>a. Returns 5000000000000000000" and b = 5000000000000000000]
      l1 u v by simp
  have r5: "\<not> evaluateCondition (\<lambda>x. x) exampleUsers (\<lambda>a. Returns 10000000000000000000)
         (Some ''balance >= 10'') 2"
    using t[where cond = "Some ''balance >= 10''" and userId = 2
        and getBalance = "\<lambda>a. Returns 10000000000000000000"] n2 by blast
  have r6: "\<not> evaluateCondition (\<lambda>x. x) exampleUsers (\<lambda>a. Throws ''network error'')
         (Some ''balance >= 10'') 1"
    using t[where cond = "Some ''balance >= 10''" and userId = 1
        and getBalance = "\<lambda>a. Throws ''network error''"] n4 by blast
  have r7: "\<not> evaluateCondition (\<lambda>x. x) exampleUsers (\<lambda>a. Returns 10000000000000000000)
         (Some ''balance is at least 10'') 1"
    using t[where cond = "Some ''balance is at least 10''" and c = "''balance is at least 10''"
        and userId = 1 and getBalance = "\<lambda>a. Returns 10000000000000000000"] n3 by blast
  show ?thesis using l1 l2 v r1 r2 r3 r4 r5 r6 r7 by simp
qed


section \<open>The execution engine\<close>

lemma submit_quoted:
  assumes "sub_getFeeData r = Returns fd"
  shows "\<exists>tx. SendTransaction tx \<in> set (snd (submit r sp amountWei))"
  using assms
  by (auto simp: submit_def Let_def split: attempt.splits)

lemma submit_not_quoted:
  assumes "sub_getFeeData r = Throws e"
  shows "submit r sp amountWei = (failed (if e = [] then ''Execution failed'' else e), [GetFeeData])"
  using assms by (simp add: submit_def caught_def)

lemma submit_request:
  "SendTransaction tx \<in> set (snd (submit r sp amountWei))
     \<Longrightarrow> tx_to tx = to_address sp \<and> tx_value tx = amountWei"
  by (auto simp: submit_def Let_def split: attempt.splits if_splits)

lemma pickGasPrice_calls:
  "pickGasPrice fd g = (res, calls) \<Longrightarrow> SendTransaction tx \<notin> set calls"
  by (auto simp: pickGasPrice_def split: option.splits)

lemma estimatePrimary_calls:
  "estimatePrimary r = (res, calls) \<Longrightarrow> SendTransaction tx \<notin> set calls"
  by (auto simp: estimatePrimary_def split: attempt.splits prod.splits dest: pickGasPrice_calls)

lemma estimateFallback_calls:
  "estimateFallback r = (res, calls) \<Longrightarrow> SendTransaction tx \<notin> set calls"
  by (auto simp: estimateFallback_def split: attempt.splits prod.splits dest: pickGasPrice_calls)

lemma estimateGasCost_calls:
  "estimateGasCost r = (res, calls) \<Longrightarrow> SendTransaction tx \<notin> set calls"
  by (auto simp: estimateGasCost_def split: attempt.splits prod.splits
      dest: estimatePrimary_calls estimateFallback_calls)

lemma execute_sufficient:
  assumes "validate l getUserById sp privateKey = Inr (address, amt, amountWei)"
    and "ex_getBalance r = Returns balance"
    and "estimateGasCost r = (Returns fee, calls)"
    and "amountWei + fee \<le> balance"
  shows "execute l getUserById r sp privateKey
         = (fst (submit r sp amountWei), GetBalance # calls @ snd (submit r sp amountWei))"
  using assms by (simp add: execute_def split: prod.splits)

lemma example_validate:
  "validate exampleLib exampleUsers (examplePayment ''SINGLE'' None None None (Some 0) None)
     ''key-of-user-1''
   = Inr (''0x00000000000000000000000000000000000000A0'', Some 5, 5000000000000000000)"
proof -
  have d: "decimalValue ''5'' = 5"
    by (simp add: decimalValue_def digitsValue_def digitValue_def isDigit_def)
  have l: "toLowerCase ''0x00000000000000000000000000000000000000A0''
         = ''0x00000000000000000000000000000000000000a0''"
    "toLowerCase ''0x00000000000000000000000000000000000000a0''
         = ''0x00000000000000000000000000000000000000a0''"
    "toLowerCase ''0x00000000000000000000000000000000000000b0''
         = ''0x00000000000000000000000000000000000000b0''"
    by code_simp+
  show ?thesis
    by (simp add: validate_def exampleLib_def exampleUsers_def examplePayment_def d l)
qed

lemma example_estimate:
  "estimateGasCost (exampleRpc b) = (Returns 42000000000000, [EstimateGas, GetFeeData])"
  by (simp add: estimateGasCost_def estimatePrimary_def pickGasPrice_def exampleRpc_def Let_def)

lemma example_estimate_unquoted:
  "estimateGasCost ((exampleRpc b)\<lparr>sub_getFeeData := Throws e\<rparr>)
     = (Returns 42000000000000, [EstimateGas, GetFeeData])"
  by (simp add: estimateGasCost_def estimatePrimary_def pickGasPrice_def exampleRpc_def Let_def)

text \<open>
  Claim C7, as stated, has the transfer submitted whenever the balance covers amount plus
  fee. Between the comparison and the sending, \<^verbatim>\<open>execute\<close> asks the provider for the fee
  data once more; when that call throws, the outer \<^verbatim>\<open>catch\<close> returns a failure and nothing
  is sent, however large the balance. Here the validation passes, the balance is 9 and
  amount plus fee is 5.000042.
\<close>

theorem sufficient_balance_without_quotation_sends_nothing:
  "validate exampleLib exampleUsers (examplePayment ''SINGLE'' None None None (Some 0) None)
     ''key-of-user-1''
     = Inr (''0x00000000000000000000000000000000000000A0'', Some 5, 5000000000000000000)
   \<and> ex_getBalance ((exampleRpc 9000000000000000000)\<lparr>sub_getFeeData := Throws ''timeout''\<rparr>)
     = Returns 9000000000000000000
   \<and> estimateGasCost ((exampleRpc 9000000000000000000)\<lparr>sub_getFeeData := Throws ''timeout''\<rparr>)
     = (Returns 42000000000000, [EstimateGas, GetFeeData])
   \<and> (5000000000000000000 :: int) + 42000000000000 \<le> 9000000000000000000
   \<and> execute exampleLib exampleUsers
        ((exampleRpc 9000000000000000000)\<lparr>sub_getFeeData := Throws ''timeout''\<rparr>)
        (examplePayment ''SINGLE'' None None None (Some 0) None) ''key-of-user-1''
     = (\<lparr>success = False, transactionId = None, result_status = ''failed'',
         error = Some ''timeout''\<rparr>,
        [GetBalance, EstimateGas, GetFeeData, GetFeeData])"
proof -
  let ?r = "(exampleRpc 9000000000000000000)\<lparr>sub_getFeeData := Throws ''timeout''\<rparr>"
  have b: "ex_getBalance ?r = Returns 9000000000000000000"
    by (simp add: exampleRpc_def Let_def)
  have q: "sub_getFeeData ?r = Throws ''timeout''" by simp
  show ?thesis
    using execute_sufficient[OF example_validate b example_estimate_unquoted]
      submit_not_quoted[OF q]
    by (simp add: example_validate b example_estimate_unquoted failed_def)
qed

text \<open>
  Claim C7, amended. Once the validation has passed, the balance has been fetched and the
  fee has been estimated, \<^verbatim>\<open>execute\<close> compares integers in wei. A balance below amount plus
  fee gives the failed result whose message states the balance, the requested amount, the
  estimated fee and the balance less the fee, and no transaction is sent. A transaction is
  sent if and only if the balance is equal to or above amount plus fee and the provider
  answers the fee quotation that precedes the sending; every transaction sent goes to the
  recipient with the amount in wei. When the balance suffices and that quotation throws,
  the result is a failure with the message of the error.
\<close>

theorem execute_balance_check:
  assumes "validate l getUserById sp privateKey = Inr (address, amt, amountWei)"
    and "ex_getBalance r = Returns balance"
    and "estimateGasCost r = (Returns fee, calls)"
  shows "(balance < amountWei + fee \<longrightarrow>
            execute l getUserById r sp privateKey
              = (\<lparr>success = False, transactionId = None, result_status = ''failed'',
                  error = Some
                    (''Insufficient balance. Available: ''
                     @ toFixed6 l (roundDouble l (of_int balance / 10 ^ 18))
                     @ '', Requested: '' @ showNumber l amt
                     @ '', Estimated gas: ''
                     @ toFixed6 l (roundDouble l (of_int fee / 10 ^ 18))
                     @ ''. Maximum transferable: ''
                     @ toFixed6 l (roundDouble l (of_int (balance - fee) / 10 ^ 18)))\<rparr>,
                 GetBalance # calls))
       \<and> ((\<exists>tx. SendTransaction tx \<in> set (snd (execute l getUserById r sp privateKey)))
            \<longleftrightarrow> amountWei + fee \<le> balance \<and> (\<exists>fd. sub_getFeeData r = Returns fd))
       \<and> (\<forall>tx. SendTransaction tx \<in> set (snd (execute l getUserById r sp privateKey))
            \<longrightarrow> tx_to tx = to_address sp \<and> tx_value tx = amountWei)
       \<and> (amountWei + fee \<le> balance \<and> sub_getFeeData r = Throws e \<longrightarrow>
            execute l getUserById r sp privateKey
              = (\<lparr>success = False, transactionId = None, result_status = ''failed'',
                  error = Some (if e = [] then ''Execution failed'' else e)\<rparr>,
                 GetBalance # calls @ [GetFeeData]))"
proof -
  have none: "SendTransaction tx \<notin> set calls" for tx
    by (rule estimateGasCost_calls[OF assms(3)])
  have low: "execute l getUserById r sp privateKey
              = (\<lparr>success = False, transactionId = None, result_status = ''failed'',
                  error = Some
                    (''Insufficient balance. Available: ''
                     @ toFixed6 l (roundDouble l (of_int balance / 10 ^ 18))
                     @ '', Requested: '' @ showNumber l amt
                     @ '', Estimated gas: ''
                     @ toFixed6 l (roundDouble l (of_int fee / 10 ^ 18))
                     @ ''. Maximum transferable: ''
                     @ toFixed6 l (roundDouble l (of_int (balance - fee) / 10 ^ 18)))\<rparr>,
                 GetBalance # calls)"
    if "balance < amountWei + fee"
    using assms that by (simp add: execute_def failed_def insufficientMessage_def)
  have high: "execute l getUserById r sp privateKey
         = (fst (submit r sp amountWei), GetBalance # calls @ snd (submit r sp amountWei))"
    if "amountWei + fee \<le> balance"
    using execute_sufficient[OF assms that] .
  have sent: "(\<exists>tx. SendTransaction tx \<in> set (snd (execute l getUserById r sp privateKey)))
            \<longleftrightarrow> amountWei + fee \<le> balance \<and> (\<exists>fd. sub_getFeeData r = Returns fd)"
  proof (cases "amountWei + fee \<le> balance")
    case False
    then show ?thesis using low none by simp
  next
    case True
    show ?thesis
    proof (cases "sub_getFeeData r")
      case (Throws e)
      then show ?thesis using high[OF True] submit_not_quoted[OF Throws] none True by simp
    next
      case (Returns fd)
      then show ?thesis using high[OF True] submit_quoted[OF Returns] True by auto
    qed
  qed
  have req: "tx_to tx = to_address sp \<and> tx_value tx = amountWei"
    if "SendTransaction tx \<in> set (snd (execute l getUserById r sp privateKey))" for tx
  proof (cases "amountWei + fee \<le> balance")
    case False
    then show ?thesis using low none that by simp
  next
    case True
    then have "SendTransaction tx \<in> set (snd (submit r sp amountWei))"
      using high[OF True] none that by simp
    then show ?thesis by (rule submit_request)
  qed
  have thrown: "execute l getUserById r sp privateKey
              = (\<lparr>success = False, transactionId = None, result_status = ''failed'',
                  error = Some (if e = [] then ''Execution failed'' else e)\<rparr>,
                 GetBalance # calls @ [GetFeeData])"
    if "amountWei + fee \<le> balance \<and> sub_getFeeData r = Throws e"
    using high that submit_not_quoted[of r e sp amountWei] by (simp add: failed_def)
  show ?thesis using low sent req thrown by blast
qed

theorem execute_balance_check_witness:
  "(\<exists>tx. SendTransaction tx
           \<in> set (snd (execute exampleLib exampleUsers (exampleRpc 5000042000000000000)
                  (examplePayment ''SINGLE'' None None None (Some 0) None) ''key-of-user-1'')))
   \<and> execute exampleLib exampleUsers (exampleRpc 5000041999999999999)
        (examplePayment ''SINGLE'' None None None (Some 0) None) ''key-of-user-1''
     = (\<lparr>success = False, transactionId = None, result_status = ''failed'',
         error = Some (''Insufficient balance. Available: 5.000042, Requested: 5, ''
                       @ ''Estimated gas: 0.000042. Maximum transferable: 5.000000'')\<rparr>,
        [GetBalance, EstimateGas, GetFeeData])"
proof -
  let ?p = "examplePayment ''SINGLE'' None None None (Some 0) None"
  have b: "ex_getBalance (exampleRpc x) = Returns x" for x
    by (simp add: exampleRpc_def Let_def)
  have f: "sub_getFeeData (exampleRpc x)
      = Returns \<lparr>gasPrice = Some 2000000000, maxFeePerGas = None, maxPriorityFeePerGas = None\<rparr>" for x
    by (simp add: exampleRpc_def Let_def)
  have f1: "floor (\<bar>5000041999999999999 / 10 ^ 18 :: rat\<bar> * 10 ^ 6 + 1 / 2) = 5000042"
    by (rule floor_unique) simp_all
  have f2: "floor (\<bar>42000000000000 / 10 ^ 18 :: rat\<bar> * 10 ^ 6 + 1 / 2) = 42"
    by (rule floor_unique) simp_all
  have f3: "floor (\<bar>4999999999999999999 / 10 ^ 18 :: rat\<bar> * 10 ^ 6 + 1 / 2) = 5000000"
    by (rule floor_unique) simp_all
  have s1: "showFixed6 (5000041999999999999 / 10 ^ 18) = ''5.000042''"
    unfolding showFixed6_def Let_def f1 by (simp add: showNat.simps)
  have s2: "showFixed6 (42000000000000 / 10 ^ 18) = ''0.000042''"
    unfolding showFixed6_def Let_def f2 by (simp add: showNat.simps)
  have s3: "showFixed6 (4999999999999999999 / 10 ^ 18) = ''5.000000''"
    unfolding showFixed6_def Let_def f3 by (simp add: showNat.simps)
  have m1: "toFixed6 exampleLib (roundDouble exampleLib (of_int 5000041999999999999 / 10 ^ 18))
      = showFixed6 (5000041999999999999 / 10 ^ 18)"
    by (simp add: exampleLib_def)
  have m2: "toFixed6 exampleLib (roundDouble exampleLib (of_int 42000000000000 / 10 ^ 18))
      = showFixed6 (42000000000000 / 10 ^ 18)"
    by (simp add: exampleLib_def)
  have m3: "toFixed6 exampleLib
        (roundDouble exampleLib (of_int (5000041999999999999 - 42000000000000) / 10 ^ 18))
      = showFixed6 (4999999999999999999 / 10 ^ 18)"
    by (simp add: exampleLib_def)
  have m4: "showNumber exampleLib (Some 5) = ''5''"
    by (simp add: exampleLib_def showNat.simps)
  note t = execute_balance_check[OF example_validate b example_estimate]
  have sent: "\<exists>tx. SendTransaction tx
           \<in> set (snd (execute exampleLib exampleUsers (exampleRpc 5000042000000000000) ?p
                  ''key-of-user-1''))"
  proof -
    have "(5000000000000000000 :: int) + 42000000000000 \<le> 5000042000000000000
        \<and> (\<exists>fd. sub_getFeeData (exampleRpc 5000042000000000000) = Returns fd)"
      using f by simp
    then show ?thesis using t[of 5000042000000000000] by blast
  qed
  have "(5000041999999999999 :: int) < 5000000000000000000 + 42000000000000" by simp
  then have "execute exampleLib exampleUsers (exampleRpc 5000041999999999999) ?p ''key-of-user-1''
      = (\<lparr>success = False, transactionId = None, result_status = ''failed'',
          error = Some
            (''Insufficient balance. Available: ''
             @ toFixed6 exampleLib (roundDouble exampleLib (of_int 5000041999999999999 / 10 ^ 18))
             @ '', Requested: '' @ showNumber exampleLib (Some 5)
             @ '', Estimated gas: ''
             @ toFixed6 exampleLib (roundDouble exampleLib (of_int 42000000000000 / 10 ^ 18))
             @ ''. Maximum transferable: ''
             @ toFixed6 exampleLib
                 (roundDouble exampleLib
                    (of_int (5000041999999999999 - 42000000000000) / 10 ^ 18)))\<rparr>,
         GetBalance # [EstimateGas, GetFeeData])"
    using t[of 5000041999999999999] by blast
  then have "execute exampleLib exampleUsers (exampleRpc 5000041999999999999) ?p ''key-of-user-1''
      = (\<lparr>success = False, transactionId = None, result_status = ''failed'',
          error = Some
            (''Insufficient balance. Available: '' @ ''5.000042''
             @ '', Requested: '' @ ''5''
             @ '', Estimated gas: '' @ ''0.000042''
             @ ''. Maximum transferable: '' @ ''5.000000'')\<rparr>,
         GetBalance # [EstimateGas, GetFeeData])"
    by (simp only: m1 m2 m3 m4 s1 s2 s3)
  then show ?thesis using sent by simp
qed

section \<open>Due payments of owners without automatic payments\<close>

lemma not_enabled_report:
  assumes "getUserById (user_id sp) = Returns (Some u)"
    and "wallet_address u = Some a" and "a \<noteq> []"
    and "getAutoPayStatus (user_id sp) = Returns st"
    and "case st of None \<Rightarrow> True
         | Some s \<Rightarrow> \<not> enabled s \<or> encryptedPrivateKey s = None \<or> encryptedPrivateKey s = Some []"
  shows "executeScheduledPayment l getUserById getAutoPayStatus decryptPrivateKey r tz now dateNow
           db paymentId sp
         = (False,
            snd (updateAfterExecution tz now dateNow db paymentId False
                   (Some ''Automatic payments not enabled'')),
            [])"
  using assms
  by (auto simp: executeScheduledPayment_def Let_def split: option.splits)

text \<open>
  Claim C10, as stated, has a due \<^verbatim>\<open>SINGLE\<close> payment of an owner without automatic
  payments end as \<^verbatim>\<open>failed\<close>. The update after the reported failure still applies the
  end-date rule: a due \<^verbatim>\<open>SINGLE\<close> entry whose end date has passed ends as \<^verbatim>\<open>completed\<close>.
\<close>

theorem single_with_passed_end_date_completes:
  "isReady (examplePayment ''SINGLE'' None (Some (TimeValue 1738195200000)) None (Some 0) None)
     1738281600000
   \<and> exampleAutoPay 1 = Returns (Some \<lparr>enabled = False, encryptedPrivateKey = None\<rparr>)
   \<and> map_option status
        (fst (snd (executeScheduledPayment exampleLib exampleUsers exampleAutoPay (\<lambda>k. Returns k)
           (exampleRpc 9000000000000000000) (fixedZone 0) 1738281600000 1738281600002
           [1 \<mapsto> examplePayment ''SINGLE'' None (Some (TimeValue 1738195200000)) None (Some 0) None]
           1
           (examplePayment ''SINGLE'' None (Some (TimeValue 1738195200000)) None (Some 0) None)))
         1)
       = Some ''completed''
   \<and> ''completed'' \<noteq> ''failed''"
  by (simp add: isReady_def examplePayment_def exampleAutoPay_def exampleUsers_def
      executeScheduledPayment_def updateAfterExecution_def Let_def)

text \<open>
  Claim C10, amended. For a payment whose owner exists and has a wallet address (an
  owner without one is reported before, as \<^verbatim>\<open>User or wallet not found\<close>): when the
  owner's automatic payments are not enabled, or no encrypted key is stored,
  \<^verbatim>\<open>executeScheduledPayment\<close> returns false, makes no blockchain call, and reports the
  failure \<^verbatim>\<open>Automatic payments not enabled\<close> to the update. A \<^verbatim>\<open>SINGLE\<close> entry then ends
  with a null next execution date, never ready again, as \<^verbatim>\<open>failed\<close>, or as \<^verbatim>\<open>completed\<close>
  when its end date has passed or its execution cap applies.
\<close>

theorem auto_pay_not_enabled:
  assumes "getUserById (user_id sp) = Returns (Some u)"
    and "wallet_address u = Some a" and "a \<noteq> []"
    and "getAutoPayStatus (user_id sp) = Returns st"
    and "case st of None \<Rightarrow> True
         | Some s \<Rightarrow> \<not> enabled s \<or> encryptedPrivateKey s = None \<or> encryptedPrivateKey s = Some []"
  shows "executeScheduledPayment l getUserById getAutoPayStatus decryptPrivateKey r tz now dateNow
           db paymentId sp
         = (False,
            snd (updateAfterExecution tz now dateNow db paymentId False
                   (Some ''Automatic payments not enabled'')),
            [])
       \<and> (db paymentId = Some sp \<and> payment_type sp = ''SINGLE'' \<longrightarrow>
            (\<exists>p'. fst (snd (executeScheduledPayment l getUserById getAutoPayStatus decryptPrivateKey
                              r tz now dateNow db paymentId sp)) paymentId = Some p'
               \<and> status p' = (if capApplies sp False \<or> endDatePassed sp now
                               then ''completed'' else ''failed'')
               \<and> next_execution_date p' = None
               \<and> (\<forall>t. \<not> isReady p' t)))"
proof (intro conjI impI)
  show e: "executeScheduledPayment l getUserById getAutoPayStatus decryptPrivateKey r tz now dateNow
           db paymentId sp
         = (False,
            snd (updateAfterExecution tz now dateNow db paymentId False
                   (Some ''Automatic payments not enabled'')),
            [])"
    using assms by (rule not_enabled_report)
  assume "db paymentId = Some sp \<and> payment_type sp = ''SINGLE''"
  then show "\<exists>p'. fst (snd (executeScheduledPayment l getUserById getAutoPayStatus decryptPrivateKey
                              r tz now dateNow db paymentId sp)) paymentId = Some p'
               \<and> status p' = (if capApplies sp False \<or> endDatePassed sp now
                               then ''completed'' else ''failed'')
               \<and> next_execution_date p' = None
               \<and> (\<forall>t. \<not> isReady p' t)"
    unfolding e
    by (simp add: updateAfterExecution_def capApplies_def endDatePassed_def Let_def isReady_def
        split: option.splits jsdate.splits)
qed

theorem auto_pay_not_enabled_witness:
  "executeScheduledPayment exampleLib exampleUsers exampleAutoPay (\<lambda>k. Returns k)
       (exampleRpc 9000000000000000000) (fixedZone 0) 1738281600000 1738281600002
       [1 \<mapsto> examplePayment ''SINGLE'' None None None (Some 0) None] 1
       (examplePayment ''SINGLE'' None None None (Some 0) None)
     = (False,
        snd (updateAfterExecution (fixedZone 0) 1738281600000 1738281600002
               [1 \<mapsto> examplePayment ''SINGLE'' None None None (Some 0) None] 1 False
               (Some ''Automatic payments not enabled'')),
        [])
   \<and> (\<exists>p'. fst (snd (executeScheduledPayment exampleLib exampleUsers exampleAutoPay (\<lambda>k. Returns k)
                (exampleRpc 9000000000000000000) (fixedZone 0) 1738281600000 1738281600002
                [1 \<mapsto> examplePayment ''SINGLE'' None None None (Some 0) None] 1
                (examplePayment ''SINGLE'' None None None (Some 0) None))) 1 = Some p'
          \<and> status p' = ''failed'')"
proof -
  let ?p = "examplePayment ''SINGLE'' None None None (Some 0) None"
  have u: "exampleUsers (user_id ?p)
      = Returns (Some \<lparr>wallet_address = Some ''0x00000000000000000000000000000000000000a0''\<rparr>)"
    by (simp add: exampleUsers_def examplePayment_def)
  have s: "exampleAutoPay (user_id ?p) = Returns (Some \<lparr>enabled = False, encryptedPrivateKey = None\<rparr>)"
    by (simp add: exampleAutoPay_def)
  have c: "\<not> capApplies ?p False" "\<not> endDatePassed ?p 1738281600000" "payment_type ?p = ''SINGLE''"
    by (simp_all add: capApplies_def endDatePassed_def examplePayment_def)
  show ?thesis
    using auto_pay_not_enabled[where getUserById = exampleUsers and sp = ?p
        and u = "\<lparr>wallet_address = Some ''0x00000000000000000000000000000000000000a0''\<rparr>"
        and a = "''0x00000000000000000000000000000000000000a0''"
        and getAutoPayStatus = exampleAutoPay
        and st = "Some \<lparr>enabled = False, encryptedPrivateKey = None\<rparr>"
        and l = exampleLib and decryptPrivateKey = "\<lambda>k. Returns k"
        and r = "exampleRpc 9000000000000000000" and tz = "fixedZone 0" and now = 1738281600000
        and dateNow = 1738281600002 and db = "[1 \<mapsto> ?p]" and paymentId = 1] u s c
    by auto
qed


end
